theory Spec2Isabelle
  imports Complex_Main "HOL-Library.Multiset"
begin

section \<open>PatchMatchNet modules of \<open>src/mvs/torch_modules.cc\<close>\<close>

text \<open>
  The embedding follows the C++ source function by function. Tensors are modelled over the
  reals (exact arithmetic). The batch dimension is dropped where the operations modelled
  act on each batch element independently; \<open>DifferentiableWarping\<close> does not, and is
  modelled with its batch axis. Library failures the source can run into
  (an index past the end of a vector, an empty module holder, an undefined tensor, a shape
  that does not fit) are values of the type \<open>error\<close>.
\<close>

datatype error =
    OutOfBounds         \<comment> \<open>\<open>std::vector::operator[]\<close> past the end (undefined behaviour)\<close>
  | EmptyModuleHolder   \<comment> \<open>\<open>operator->\<close> on a module holder that was never registered\<close>
  | UndefinedTensor     \<comment> \<open>a method called on an undefined \<open>torch::Tensor\<close>\<close>
  | CatEmptyList        \<comment> \<open>\<open>torch::cat\<close> of an empty tensor list\<close>
  | IndexError          \<comment> \<open>\<open>select\<close> or \<open>gather\<close> with an index outside the dimension\<close>
  | ShapeMismatch       \<comment> \<open>\<open>view\<close>, broadcasting or \<open>copy_\<close> with sizes that do not fit\<close>
  | DivideByZero        \<comment> \<open>integer division by zero (undefined behaviour)\<close>

subsection \<open>\<open>PatchMatchModuleImpl::CalcOffsets\<close>\<close>

text \<open>
  An offset is a \<open>std::array<int, 2>\<close>; an offset table is a \<open>std::vector\<close> of them. The
  entries are mathematical integers, which agree with the code's 32-bit \<open>int\<close> as long as
  \<open>- dilation\<close> and \<open>2 * dilation\<close> do not overflow.
\<close>

type_synonym offset = "int \<times> int"

definition at_vec :: "'a list \<Rightarrow> nat \<Rightarrow> error + 'a" where
  "at_vec v i = (if i < length v then Inr (v ! i) else Inl OutOfBounds)"

definition ring8 :: "int \<Rightarrow> offset list" where
  "ring8 dilation =
     [(- dilation, - dilation), (- dilation, 0), (- dilation, dilation), (0, - dilation),
      (0, dilation), (dilation, - dilation), (dilation, 0), (dilation, dilation)]"

definition square9 :: "int \<Rightarrow> offset list" where
  "square9 dilation =
     [(- dilation, - dilation), (- dilation, 0), (- dilation, dilation), (0, - dilation),
      (0, 0), (0, dilation), (dilation, - dilation), (dilation, 0), (dilation, dilation)]"

text \<open>
  The loop of \<open>case 16\<close>: \<open>n\<close> more rounds from index \<open>i\<close>, each reading
  \<open>prop_offset_orig[i]\<close> and pushing its double onto the same vector.
\<close>

fun prop16_loop :: "nat \<Rightarrow> nat \<Rightarrow> offset list \<Rightarrow> error + offset list" where
  "prop16_loop i 0 v = Inr v"
| "prop16_loop i (Suc n) v =
     (case at_vec v i of
        Inl e \<Rightarrow> Inl e
      | Inr (a, b) \<Rightarrow> prop16_loop (Suc i) n (v @ [(2 * a, 2 * b)]))"

text \<open>
  The loop of \<open>case 17\<close>: \<open>n\<close> more rounds from index \<open>i\<close>, each reading
  \<open>prop_offset_orig[i]\<close> (the table \<open>p\<close>), skipping a zero offset and pushing the double of
  any other onto \<open>eval_offset_orig\<close>.
\<close>

fun eval17_loop :: "offset list \<Rightarrow> nat \<Rightarrow> nat \<Rightarrow> offset list \<Rightarrow> error + offset list" where
  "eval17_loop p i 0 v = Inr v"
| "eval17_loop p i (Suc n) v =
     (case at_vec p i of
        Inl e \<Rightarrow> Inl e
      | Inr (a, b) \<Rightarrow>
          if a = 0 \<and> b = 0 then eval17_loop p (Suc i) n v
          else eval17_loop p (Suc i) n (v @ [(2 * a, 2 * b)]))"

text \<open>An \<open>int\<close> as \<open>std::cout\<close> prints it.\<close>

fun digits :: "nat \<Rightarrow> string" where
  "digits n =
     (if n < 10 then [''0123456789'' ! n]
      else digits (n div 10) @ [''0123456789'' ! (n mod 10)])"

definition show_int :: "int \<Rightarrow> string" where
  "show_int i = (if i < 0 then CHR ''-'' # digits (nat (- i)) else digits (nat i))"

text \<open>
  The first \<open>switch\<close>, on \<open>propagation_neighbors\<close>. The table starts empty (the member is
  default-constructed); the \<open>default\<close> branch prints a message and leaves it empty.
\<close>

definition calc_prop_offsets :: "int \<Rightarrow> int \<Rightarrow> error + (offset list \<times> string list)" where
  "calc_prop_offsets propagation_neighbors dilation =
     (if propagation_neighbors = 0 then Inr ([], [])
      else if propagation_neighbors = 4 then
        Inr ([(- dilation, 0), (0, - dilation), (0, dilation), (dilation, 0)], [])
      else if propagation_neighbors = 8 then Inr (ring8 dilation, [])
      else if propagation_neighbors = 16 then
        (case prop16_loop 0 8 (ring8 dilation) of
           Inl e \<Rightarrow> Inl e
         | Inr v \<Rightarrow> Inr (v, []))
      else Inr ([], [''ERROR: Not implemented for '' @ show_int propagation_neighbors
                       @ '' propagation neighbors'']))"

text \<open>
  The second \<open>switch\<close>, on \<open>evaluation_neighbors\<close>, after \<open>dilation--\<close>; \<open>p\<close> is
  \<open>prop_offset_orig\<close> as the first switch left it.
\<close>

definition calc_eval_offsets ::
  "int \<Rightarrow> int \<Rightarrow> offset list \<Rightarrow> error + (offset list \<times> string list)" where
  "calc_eval_offsets evaluation_neighbors dilation p =
     (if evaluation_neighbors = 9 then Inr (square9 dilation, [])
      else if evaluation_neighbors = 17 then
        (case eval17_loop p 0 8 (square9 dilation) of
           Inl e \<Rightarrow> Inl e
         | Inr v \<Rightarrow> Inr (v, []))
      else Inr ([], [''ERROR: Not implemented for '' @ show_int evaluation_neighbors
                       @ '' evaluation neighbors'']))"

text \<open>
  \<open>CalcOffsets\<close> returns the two tables \<open>prop_offset_orig\<close> and \<open>eval_offset_orig\<close> and
  what was printed.
\<close>

definition CalcOffsets ::
  "int \<Rightarrow> int \<Rightarrow> int \<Rightarrow> error + (offset list \<times> offset list \<times> string list)" where
  "CalcOffsets propagation_neighbors evaluation_neighbors dilation =
     (case calc_prop_offsets propagation_neighbors dilation of
        Inl e \<Rightarrow> Inl e
      | Inr (p, out1) \<Rightarrow>
          (case calc_eval_offsets evaluation_neighbors (dilation - 1) p of
             Inl e \<Rightarrow> Inl e
           | Inr (v, out2) \<Rightarrow> Inr (p, v, out1 @ out2)))"

subsection \<open>Tensors\<close>

text \<open>
  A tensor is its sizes and its entries. Three shapes occur: a volume
  (samples or channels \<open>\<times>\<close> height \<open>\<times>\<close> width), an image (height \<open>\<times>\<close> width) and a sampling
  grid (rows \<open>\<times>\<close> columns \<open>\<times>\<close> 2, the last axis being the pair \<open>(x, y)\<close> of normalised
  coordinates).
\<close>

record volume =
  vol_n :: nat
  vol_h :: nat
  vol_w :: nat
  vol_at :: "nat \<Rightarrow> nat \<Rightarrow> nat \<Rightarrow> real"

record image =
  img_h :: nat
  img_w :: nat
  img_at :: "nat \<Rightarrow> nat \<Rightarrow> real"

record grid =
  grid_h :: nat
  grid_w :: nat
  grid_at :: "nat \<Rightarrow> nat \<Rightarrow> real \<times> real"

text \<open>\<open>t.select(1, i)\<close>: the image at index \<open>i\<close> of the first axis.\<close>

definition select1 :: "volume \<Rightarrow> nat \<Rightarrow> image" where
  "select1 t i = \<lparr>img_h = vol_h t, img_w = vol_w t, img_at = vol_at t i\<rparr>"

text \<open>The entries of a volume along its first axis at one pixel.\<close>

definition pixel_samples :: "volume \<Rightarrow> nat \<Rightarrow> nat \<Rightarrow> real list" where
  "pixel_samples t y x = map (\<lambda>s. vol_at t s y x) [0..<vol_n t]"

subsection \<open>The library's \<open>grid_sample\<close>\<close>

text \<open>
  \<open>torch::nn::functional::grid_sample\<close> is a library primitive; the source fixes its
  options in \<open>kGridSampleBorder\<close> and \<open>kGridSampleZeros\<close> (bilinear, \<open>align_corners\<close> false).
  It is modelled after the library's documented behaviour: a normalised coordinate is
  mapped to a pixel coordinate, with border padding the pixel coordinate is clipped into
  the image, and the four surrounding pixels are blended, a pixel outside the image
  contributing zero.
\<close>

definition unnormalize :: "real \<Rightarrow> nat \<Rightarrow> real" where
  "unnormalize c n = ((c + 1) * real n - 1) / 2"

definition clip_coordinates :: "real \<Rightarrow> nat \<Rightarrow> real" where
  "clip_coordinates c n = min (real n - 1) (max c 0)"

definition within_bounds :: "int \<Rightarrow> int \<Rightarrow> nat \<Rightarrow> nat \<Rightarrow> bool" where
  "within_bounds iy ix h w = (0 \<le> iy \<and> iy < int h \<and> 0 \<le> ix \<and> ix < int w)"

definition corner :: "image \<Rightarrow> int \<Rightarrow> int \<Rightarrow> real" where
  "corner f iy ix =
     (if within_bounds iy ix (img_h f) (img_w f) then img_at f (nat iy) (nat ix) else 0)"

definition bilinear_at :: "image \<Rightarrow> real \<Rightarrow> real \<Rightarrow> real" where
  "bilinear_at f iy ix =
     (let x0 = \<lfloor>ix\<rfloor>; y0 = \<lfloor>iy\<rfloor>; x1 = x0 + 1; y1 = y0 + 1;
          nw = (of_int x1 - ix) * (of_int y1 - iy);
          ne = (ix - of_int x0) * (of_int y1 - iy);
          sw = (of_int x1 - ix) * (iy - of_int y0);
          se = (ix - of_int x0) * (iy - of_int y0)
      in corner f y0 x0 * nw + corner f y0 x1 * ne + corner f y1 x0 * sw + corner f y1 x1 * se)"

definition grid_sample_zeros :: "image \<Rightarrow> real \<times> real \<Rightarrow> real" where
  "grid_sample_zeros f g =
     bilinear_at f (unnormalize (snd g) (img_h f)) (unnormalize (fst g) (img_w f))"

definition grid_sample_border :: "image \<Rightarrow> real \<times> real \<Rightarrow> real" where
  "grid_sample_border f g =
     bilinear_at f (clip_coordinates (unnormalize (snd g) (img_h f)) (img_h f))
                   (clip_coordinates (unnormalize (fst g) (img_w f)) (img_w f))"

subsection \<open>\<open>InitDepthImpl::forward\<close>\<close>

text \<open>C++ integer division truncates towards zero.\<close>

definition cdiv :: "int \<Rightarrow> int \<Rightarrow> int" where
  "cdiv a b = sgn a * sgn b * (\<bar>a\<bar> div \<bar>b\<bar>)"

definition clamp :: "real \<Rightarrow> real \<Rightarrow> real \<Rightarrow> real" where
  "clamp lo hi v = min (max v lo) hi"

text \<open>
  Broadcasting of two sizes along one axis: they fit when they are equal or one of them
  is 1; an axis of size 1 is read at index 0.
\<close>

definition bcast :: "nat \<Rightarrow> nat \<Rightarrow> bool" where
  "bcast a b = (a = b \<or> a = 1 \<or> b = 1)"

definition bsize :: "nat \<Rightarrow> nat \<Rightarrow> nat" where
  "bsize a b = (if a = 1 then b else a)"

definition bidx :: "nat \<Rightarrow> nat \<Rightarrow> nat" where
  "bidx n i = (if n = 1 then 0 else i)"

text \<open>
  \<open>depth_init\<close> is \<open>None\<close> for an undefined tensor. \<open>rand\<close> is the tensor drawn by
  \<open>torch::rand\<close>, uniform in \<open>[0, 1)\<close>, given as an argument. In the third branch
  \<open>torch::arange(-num_samples / 2, num_samples / 2, 1)\<close> has \<open>num_samples\<close> entries only
  when \<open>num_samples\<close> is even and not negative (the \<open>view\<close> fails otherwise), and
  \<open>depth_init\<close> must broadcast against the repeated offsets. At a zero of \<open>depth_init\<close>
  (read as \<open>+0.0\<close>) \<open>1.0 / depth_init\<close> is \<open>+inf\<close>, which the clamp turns into
  \<open>inv_depth_min\<close>. \<open>depth_min\<close> and \<open>depth_max\<close> are taken to be non-zero.
\<close>

definition InitDepth_forward ::
  "int \<Rightarrow> real \<Rightarrow> volume option \<Rightarrow> real \<Rightarrow> real \<Rightarrow> nat \<Rightarrow> nat \<Rightarrow>
   (nat \<Rightarrow> nat \<Rightarrow> nat \<Rightarrow> real) \<Rightarrow> error + volume" where
  "InitDepth_forward num_samples interval_scale depth_init depth_min depth_max height width rand =
     (let inv_depth_min = 1 / depth_min; inv_depth_max = 1 / depth_max in
      case depth_init of
        None \<Rightarrow>
          (let rand_num_samples = (48 :: nat) in
           Inr \<lparr>vol_n = rand_num_samples, vol_h = height, vol_w = width,
                vol_at = (\<lambda>s y x.
                  1 / (((inv_depth_min - inv_depth_max) / real rand_num_samples)
                         * (rand s y x + real s) + inv_depth_max))\<rparr>)
      | Some d0 \<Rightarrow>
          if num_samples = 1 then Inr d0
          else if num_samples < 0 \<or> cdiv num_samples 2 - cdiv (- num_samples) 2 \<noteq> num_samples
          then Inl ShapeMismatch
          else if \<not> (bcast (vol_n d0) (nat num_samples) \<and> bcast (vol_h d0) height
                      \<and> bcast (vol_w d0) width)
          then Inl ShapeMismatch
          else
            Inr \<lparr>vol_n = bsize (vol_n d0) (nat num_samples), vol_h = bsize (vol_h d0) height,
                 vol_w = bsize (vol_w d0) width,
                 vol_at = (\<lambda>s y x.
                   let v = vol_at d0 (bidx (vol_n d0) s) (bidx (vol_h d0) y) (bidx (vol_w d0) x)
                   in 1 / (if v = 0 then inv_depth_min
                           else clamp inv_depth_max inv_depth_min
                                  (1 / v + (inv_depth_min - inv_depth_max) * interval_scale
                                           * of_int (cdiv (- num_samples) 2 + int s))))\<rparr>)"

subsection \<open>\<open>PropagationImpl::forward\<close>\<close>

text \<open>
  \<open>.view({batch_size, num_neighbors, height, width})\<close> of the sampled tensor, whose shape is
  that of the grid: entry \<open>(n, y, x)\<close> is the entry of the same position in row-major
  order.
\<close>

definition view_neighbors :: "grid \<Rightarrow> (nat \<Rightarrow> nat \<Rightarrow> real) \<Rightarrow> nat \<Rightarrow> nat \<Rightarrow> nat \<Rightarrow> nat \<Rightarrow> nat \<Rightarrow> real" where
  "view_neighbors g sampled height width n y x =
     (let flat = (n * height + y) * width + x
      in sampled (flat div grid_w g) (flat mod grid_w g))"

text \<open>\<open>torch::cat({a, b}, 1)\<close> and \<open>torch::sort(t, 1)\<close> (ascending, the values).\<close>

definition cat1 :: "volume \<Rightarrow> volume \<Rightarrow> volume" where
  "cat1 a b =
     \<lparr>vol_n = vol_n a + vol_n b, vol_h = vol_h a, vol_w = vol_w a,
      vol_at = (\<lambda>s y x. if s < vol_n a then vol_at a s y x else vol_at b (s - vol_n a) y x)\<rparr>"

definition sort1 :: "volume \<Rightarrow> volume" where
  "sort1 t = t\<lparr>vol_at := (\<lambda>s y x. sort (pixel_samples t y x) ! s)\<rparr>"

text \<open>
  \<open>grid.size(1) / height\<close> divides by zero for an empty image; \<open>select(1, num_depth / 2)\<close>
  needs at least one sample; \<open>grid_sample\<close> rejects an input without pixels; the \<open>view\<close>
  needs as many sampled entries as \<open>num_neighbors * height * width\<close>.
\<close>

definition Propagation_forward :: "volume \<Rightarrow> grid \<Rightarrow> error + volume" where
  "Propagation_forward depth g =
     (let num_depth = vol_n depth; height = vol_h depth; width = vol_w depth in
      if height = 0 then Inl DivideByZero
      else
        let num_neighbors = grid_h g div height in
        if num_depth = 0 then Inl IndexError
        else if width = 0 then Inl ShapeMismatch
        else if grid_h g * grid_w g \<noteq> num_neighbors * height * width then Inl ShapeMismatch
        else
          let middle = select1 depth (num_depth div 2);
              sampled = (\<lambda>i j. grid_sample_border middle (grid_at g i j));
              prop_depth = \<lparr>vol_n = num_neighbors, vol_h = height, vol_w = width,
                            vol_at = view_neighbors g sampled height width\<rparr>
          in Inr (sort1 (cat1 depth prop_depth)))"

subsection \<open>\<open>EvaluationImpl::DifferentiableWarping\<close>\<close>

text \<open>
  This function is modelled with its batch axis, because one of its steps mixes the batch
  elements. A feature map is a tensor of batch \<open>\<times>\<close> channels \<open>\<times>\<close> height \<open>\<times>\<close> width, a depth
  hypothesis volume one of batch \<open>\<times>\<close> samples \<open>\<times>\<close> height \<open>\<times>\<close> width.
\<close>

record tensor4 =
  t4_b :: nat
  t4_c :: nat
  t4_h :: nat
  t4_w :: nat
  t4_at :: "nat \<Rightarrow> nat \<Rightarrow> nat \<Rightarrow> nat \<Rightarrow> real"

text \<open>\<open>t.select(0, b).select(0, c)\<close>: one channel of one batch element.\<close>

definition select_channel :: "tensor4 \<Rightarrow> nat \<Rightarrow> nat \<Rightarrow> image" where
  "select_channel t b c = \<lparr>img_h = t4_h t, img_w = t4_w t, img_at = t4_at t b c\<rparr>"

text \<open>
  A projection matrix is a 4 \<open>\<times>\<close> 4 matrix; \<open>proj\<close> and \<open>ref_proj\<close> hold one per batch element.
  \<open>torch::inverse\<close> is a library primitive: the model receives its result \<open>ref_proj_inv\<close>
  for \<open>ref_proj\<close>.
\<close>

type_synonym mat = "nat \<Rightarrow> nat \<Rightarrow> real"

definition matmul4 :: "mat \<Rightarrow> mat \<Rightarrow> mat" where
  "matmul4 a b = (\<lambda>i j. a i 0 * b 0 j + a i 1 * b 1 j + a i 2 * b 2 j + a i 3 * b 3 j)"

text \<open>
  A floating-point division by zero does not raise: it gives an infinity or NaN. Such a
  value is not a real number and is \<open>None\<close> here; whatever is computed from it is \<open>None\<close>
  as well.
\<close>

definition fdiv :: "real \<Rightarrow> real \<Rightarrow> real option" where
  "fdiv a b = (if b = 0 then None else Some (a / b))"

text \<open>
  \<open>xyz\<close> for the pixel \<open>(x, y)\<close> and the depth hypothesis \<open>d\<close>: the rotation block of
  \<open>pmtx\<close> applied to \<open>(x, y, 1)\<close>, scaled by \<open>d\<close>, plus the translation column.
\<close>

definition warp_xyz :: "mat \<Rightarrow> real \<Rightarrow> real \<Rightarrow> real \<Rightarrow> real \<times> real \<times> real" where
  "warp_xyz pmtx x y d =
     ((pmtx 0 0 * x + pmtx 0 1 * y + pmtx 0 2 * 1) * d + pmtx 0 3,
      (pmtx 1 0 * x + pmtx 1 1 * y + pmtx 1 2 * 1) * d + pmtx 1 3,
      (pmtx 2 0 * x + pmtx 2 1 * y + pmtx 2 2 * 1) * d + pmtx 2 3)"

definition masked_fill :: "real \<Rightarrow> bool \<Rightarrow> real \<Rightarrow> real" where
  "masked_fill v msk c = (if msk then c else v)"

text \<open>
  The \<open>torch::stack\<close> after the mask: each of the three rows is built from
  \<open>xyz.select(1, 0)\<close>, as the source has it.
\<close>

definition warp_masked :: "mat \<Rightarrow> nat \<Rightarrow> nat \<Rightarrow> real \<Rightarrow> real \<Rightarrow> real \<Rightarrow> real \<times> real \<times> real" where
  "warp_masked pmtx height width x y d =
     (case warp_xyz pmtx x y d of
        (xyz0, xyz1, xyz2) \<Rightarrow>
          let msk = (xyz2 \<le> 1 / 1000)
          in (masked_fill xyz0 msk (real width),
              masked_fill xyz0 msk (real height),
              masked_fill xyz0 msk 1))"

text \<open>
  \<open>depth.view({batch_size, 1, num_depth, height * width})\<close> at batch element \<open>b\<close>,
  hypothesis \<open>d\<close> and position \<open>p\<close>: the entry of \<open>depth\<close> at the same place in row-major
  order (\<open>hw\<close> is \<open>height * width\<close>).
\<close>

definition depth_view :: "tensor4 \<Rightarrow> nat \<Rightarrow> nat \<Rightarrow> nat \<Rightarrow> nat \<Rightarrow> real" where
  "depth_view depth hw b d p =
     (let n = t4_c depth; sz = t4_h depth * t4_w depth;
          flat = (b * n + d) * hw + p
      in t4_at depth (flat div (sz * n)) ((flat div sz) mod n)
           ((flat mod sz) div t4_w depth) ((flat mod sz) mod t4_w depth))"

text \<open>
  The masked and stacked \<open>xyz\<close> of batch element \<open>b\<close>, hypothesis \<open>d\<close> and pixel \<open>(x, y)\<close>,
  which sits at position \<open>y * width + x\<close>.
\<close>

definition warp_point ::
  "tensor4 \<Rightarrow> (nat \<Rightarrow> mat) \<Rightarrow> (nat \<Rightarrow> mat) \<Rightarrow> tensor4 \<Rightarrow> nat \<Rightarrow> nat \<Rightarrow> nat \<Rightarrow> nat
   \<Rightarrow> real \<times> real \<times> real" where
  "warp_point feature proj ref_proj_inv depth b d y x =
     warp_masked (matmul4 (proj b) (ref_proj_inv b)) (t4_h feature) (t4_w feature)
       (real x) (real y)
       (depth_view depth (t4_h feature * t4_w feature) b d (y * t4_w feature + x))"

text \<open>
  \<open>proj_xy = xyz.narrow(1, 0, 2) / xyz.select(1, 2)\<close>, in pixel coordinates. The dividend
  has the shape batch \<open>\<times>\<close> 2 \<open>\<times>\<close> samples \<open>\<times>\<close> positions; \<open>select\<close> drops axis 1, so the divisor has
  the shape batch \<open>\<times>\<close> samples \<open>\<times>\<close> positions and its batch axis is broadcast against the
  coordinate axis of the dividend. For a batch of one, each coordinate is divided by the
  third row of the same point. For a batch of two, coordinate \<open>c\<close> of either batch element
  is divided by the third row of batch element \<open>c\<close>. No other batch size broadcasts.
\<close>

definition divisor_batch :: "nat \<Rightarrow> nat \<Rightarrow> nat" where
  "divisor_batch batch_size c = (if batch_size = 1 then 0 else c)"

definition warp_proj_xy ::
  "tensor4 \<Rightarrow> (nat \<Rightarrow> mat) \<Rightarrow> (nat \<Rightarrow> mat) \<Rightarrow> tensor4 \<Rightarrow> nat \<Rightarrow> nat \<Rightarrow> nat \<Rightarrow> nat
   \<Rightarrow> real option \<times> real option" where
  "warp_proj_xy feature proj ref_proj_inv depth b d y x =
     (case warp_point feature proj ref_proj_inv depth b d y x of
        (m0, m1, m2) \<Rightarrow>
          (fdiv m0 (snd (snd (warp_point feature proj ref_proj_inv depth
                                (divisor_batch (t4_b feature) 0) d y x))),
           fdiv m1 (snd (snd (warp_point feature proj ref_proj_inv depth
                                (divisor_batch (t4_b feature) 1) d y x)))))"

text \<open>
  The normalised sampling coordinates handed to \<open>grid_sample\<close>:
  \<open>v / ((n - 1.0) / 2.0) - 1.0\<close> for the width and the height.
\<close>

definition normalize :: "real option \<Rightarrow> nat \<Rightarrow> real option" where
  "normalize v n =
     (case v of
        None \<Rightarrow> None
      | Some p \<Rightarrow> map_option (\<lambda>q. q - 1) (fdiv p ((real n - 1) / 2)))"

definition warp_grid ::
  "tensor4 \<Rightarrow> (nat \<Rightarrow> mat) \<Rightarrow> (nat \<Rightarrow> mat) \<Rightarrow> tensor4 \<Rightarrow> nat \<Rightarrow> nat \<Rightarrow> nat \<Rightarrow> nat
   \<Rightarrow> real option \<times> real option" where
  "warp_grid feature proj ref_proj_inv depth b d y x =
     (case warp_proj_xy feature proj ref_proj_inv depth b d y x of
        (px, py) \<Rightarrow> (normalize px (t4_w feature), normalize py (t4_h feature)))"

text \<open>
  \<open>grid_sample\<close> with zero padding at a coordinate pair of the grid; a coordinate that is
  not a real number gives no real sample.
\<close>

definition sample_zeros :: "image \<Rightarrow> real option \<times> real option \<Rightarrow> real option" where
  "sample_zeros f g =
     (case g of
        (Some gx, Some gy) \<Rightarrow> Some (grid_sample_zeros f (gx, gy))
      | _ \<Rightarrow> None)"

record warped =
  wrp_b :: nat
  wrp_c :: nat
  wrp_d :: nat
  wrp_h :: nat
  wrp_w :: nat
  wrp_at :: "nat \<Rightarrow> nat \<Rightarrow> nat \<Rightarrow> nat \<Rightarrow> nat \<Rightarrow> real option"

text \<open>
  The function raises nothing of its own. Of the library's checks the model keeps: the
  \<open>view\<close> of \<open>depth\<close> needs as many entries as \<open>batch_size * num_depth * height * width\<close>;
  the division of \<open>proj_xy\<close> needs shapes that broadcast, that is a batch of one or two;
  \<open>grid_sample\<close> needs an input with pixels. The result is indexed by batch element,
  channel, hypothesis and pixel.
\<close>

definition DifferentiableWarping ::
  "tensor4 \<Rightarrow> (nat \<Rightarrow> mat) \<Rightarrow> (nat \<Rightarrow> mat) \<Rightarrow> tensor4 \<Rightarrow> error + warped" where
  "DifferentiableWarping feature proj ref_proj_inv depth =
     (let batch_size = t4_b feature; num_channels = t4_c feature;
          height = t4_h feature; width = t4_w feature;
          num_depth = t4_c depth
      in
      if t4_b depth * t4_h depth * t4_w depth \<noteq> batch_size * height * width
      then Inl ShapeMismatch
      else if batch_size \<noteq> 1 \<and> batch_size \<noteq> 2 then Inl ShapeMismatch
      else if height = 0 \<or> width = 0 then Inl ShapeMismatch
      else
        Inr \<lparr>wrp_b = batch_size, wrp_c = num_channels, wrp_d = num_depth,
             wrp_h = height, wrp_w = width,
             wrp_at = (\<lambda>b c d y x.
               sample_zeros (select_channel feature b c)
                 (warp_grid feature proj ref_proj_inv depth b d y x))\<rparr>)"

text \<open>
  The coordinates the specification describes: \<open>(x'/z', y'/z')\<close> for
  \<open>(x', y', z') = xyz\<close>. This definition follows the specification's words, for
  comparison with \<open>warp_proj_xy\<close>.
\<close>

definition spec_proj_xy :: "mat \<Rightarrow> real \<Rightarrow> real \<Rightarrow> real \<Rightarrow> real option \<times> real option" where
  "spec_proj_xy pmtx x y d =
     (case warp_xyz pmtx x y d of (x', y', z') \<Rightarrow> (fdiv x' z', fdiv y' z'))"

text \<open>The identity projection, for concrete inputs.\<close>

definition identity4 :: mat where
  "identity4 = (\<lambda>i j. if i = j then 1 else 0)"

subsection \<open>The score of \<open>EvaluationImpl::forward\<close>\<close>




subsection \<open>\<open>PatchMatchNetModuleImpl::CalcConfidence\<close>\<close>

text \<open>
  The library's \<open>interpolate\<close> with \<open>kInterpBilinear\<close> (scale factor 2, bilinear,
  \<open>align_corners\<close> false), after its documented behaviour: the source position of an output
  index, cut off at 0, its two neighbouring input indices and the blending weight.
\<close>

definition src_index :: "nat \<Rightarrow> nat \<Rightarrow> nat \<times> nat \<times> real" where
  "src_index n dst =
     (let r = max 0 ((real dst + 1 / 2) / 2 - 1 / 2);
          i0 = nat \<lfloor>r\<rfloor>;
          i1 = i0 + (if i0 < n - 1 then 1 else 0)
      in (i0, i1, r - real i0))"

definition interpolate :: "image \<Rightarrow> image" where
  "interpolate f =
     \<lparr>img_h = 2 * img_h f, img_w = 2 * img_w f,
      img_at = (\<lambda>y x.
        case src_index (img_h f) y of (y0, y1, ly) \<Rightarrow>
        case src_index (img_w f) x of (x0, x1, lx) \<Rightarrow>
          (1 - ly) * ((1 - lx) * img_at f y0 x0 + lx * img_at f y0 x1)
          + ly * ((1 - lx) * img_at f y1 x0 + lx * img_at f y1 x1))\<rparr>"

text \<open>
  \<open>pad\<close> with \<open>{0, 0, 0, 0, 1, 2}\<close>: one zero before and two after along the depth axis.
\<close>

definition padded :: "volume \<Rightarrow> nat \<Rightarrow> nat \<Rightarrow> nat \<Rightarrow> real" where
  "padded score j y x = (if 1 \<le> j \<and> j < vol_n score + 1 then vol_at score (j - 1) y x else 0)"

text \<open>\<open>4.0 * avg_pool3d\<close> with kernel \<open>{4, 1, 1}\<close> and stride 1 over the padded tensor.\<close>

definition score_sum :: "volume \<Rightarrow> nat \<Rightarrow> nat \<Rightarrow> nat \<Rightarrow> real" where
  "score_sum score d y x =
     4 * ((padded score d y x + padded score (d + 1) y x + padded score (d + 2) y x
           + padded score (d + 3) y x) / 4)"

text \<open>\<open>.to(torch::kLong)\<close> rounds towards zero.\<close>

definition to_long :: "real \<Rightarrow> int" where
  "to_long v = (if 0 \<le> v then \<lfloor>v\<rfloor> else \<lceil>v\<rceil>)"

text \<open>
  \<open>depth_index\<close> before the \<open>gather\<close>: the sum over the depth axis of
  \<open>score * arange(num_depth)\<close> (the two broadcast against each other), cast and clamped.
\<close>

definition depth_index :: "nat \<Rightarrow> volume \<Rightarrow> nat \<Rightarrow> nat \<Rightarrow> int" where
  "depth_index n score y x =
     min (max (to_long (\<Sum>i<bsize (vol_n score) n.
                  vol_at score (bidx (vol_n score) i) y x * real (bidx n i))) 0)
         (int n - 1)"

text \<open>
  \<open>num_depth\<close> is the member set from \<open>num_samples[0]\<close>. \<open>arange\<close> rejects a negative
  bound, the pooling an input shorter than its kernel or without pixels, the product sizes
  that do not broadcast, and \<open>gather\<close> an index outside the depth axis at any pixel.
\<close>

definition CalcConfidence :: "int \<Rightarrow> volume \<Rightarrow> error + image" where
  "CalcConfidence num_depth score =
     (let n = nat num_depth in
      if vol_h score = 0 \<or> vol_w score = 0 \<or> vol_n score = 0 then Inl ShapeMismatch
      else if num_depth < 0 then Inl ShapeMismatch
      else if \<not> bcast (vol_n score) n then Inl ShapeMismatch
      else if \<not> list_all (\<lambda>y. list_all (\<lambda>x.
                   0 \<le> depth_index n score y x \<and> depth_index n score y x < int (vol_n score))
                 [0..<vol_w score]) [0..<vol_h score]
      then Inl IndexError
      else
        Inr (interpolate
          \<lparr>img_h = vol_h score, img_w = vol_w score,
           img_at = (\<lambda>y x. score_sum score (nat (depth_index n score y x)) y x)\<rparr>))"

subsection \<open>Control flow of the modules\<close>

text \<open>
  For the flow of control through \<open>EvaluationImpl::forward\<close>,
  \<open>PatchMatchModuleImpl::forward\<close> and \<open>PatchMatchNetModuleImpl::forward\<close> a tensor is
  abstracted to whether it is defined: the branches of these functions read nothing
  else of a tensor. Of the library's failures this part of the model keeps the empty
  module holder, the method called on an undefined tensor and the \<open>cat\<close> of an empty list;
  shape errors are left out here, so the model runs at least as far as the code does.
\<close>

datatype tensor = Undefined | Defined

text \<open>
  \<open>EvaluationImpl\<close>: \<open>pixelwise_net\<close> is \<open>None\<close> for the holder that was never registered,
  and holds the argument of its constructor otherwise.
\<close>

record Evaluation =
  num_groups :: int
  pixelwise_net :: "int option"
  similarity_net :: int

definition EvaluationImpl :: "int \<Rightarrow> int \<Rightarrow> Evaluation" where
  "EvaluationImpl groups stg =
     \<lparr>num_groups = groups,
      pixelwise_net = (if stg = 3 then Some groups else None),
      similarity_net = groups\<rparr>"

text \<open>
  The loop over \<open>src_features\<close>, \<open>n\<close> views to go: each round takes the view weight from
  \<open>view_weights\<close> if that is defined and from \<open>pixelwise_net->forward\<close> otherwise, and
  pushes it onto \<open>weights\<close>. The result is the number of weights pushed.
\<close>

fun view_weight_loop :: "Evaluation \<Rightarrow> bool \<Rightarrow> nat \<Rightarrow> error + nat" where
  "view_weight_loop ev has_weights 0 = Inr 0"
| "view_weight_loop ev has_weights (Suc n) =
     (if has_weights then
        (case view_weight_loop ev has_weights n of Inl e \<Rightarrow> Inl e | Inr k \<Rightarrow> Inr (Suc k))
      else
        (case pixelwise_net ev of
           None \<Rightarrow> Inl EmptyModuleHolder
         | Some net \<Rightarrow>
             (case view_weight_loop ev has_weights n of Inl e \<Rightarrow> Inl e | Inr k \<Rightarrow> Inr (Suc k))))"

text \<open>
  \<open>EvaluationImpl::forward\<close> for \<open>n_src\<close> source views, returning
  \<open>(depth, score, view_weights)\<close>. \<open>depth.size(1)\<close> needs a defined \<open>depth\<close>; the last
  component is \<open>view_weights\<close> itself or \<open>torch::cat(weights, 1)\<close>.
\<close>

definition Evaluation_forward ::
  "Evaluation \<Rightarrow> nat \<Rightarrow> tensor \<Rightarrow> tensor \<Rightarrow> error + (tensor \<times> tensor \<times> tensor)" where
  "Evaluation_forward ev n_src depth_init view_weights =
     (if depth_init = Undefined then Inl UndefinedTensor
      else
        let has_weights = (view_weights = Defined) in
        case view_weight_loop ev has_weights n_src of
          Inl e \<Rightarrow> Inl e
        | Inr pushed \<Rightarrow>
            if has_weights then Inr (Defined, Defined, view_weights)
            else if pushed = 0 then Inl CatEmptyList
            else Inr (Defined, Defined, Defined))"

record PatchMatchModule =
  propagation_neighbors :: int
  evaluation_neighbors :: int
  iterations :: int
  stage :: int
  prop_offset_orig :: "offset list"
  eval_offset_orig :: "offset list"
  propagation_conv :: bool
  evaluation :: Evaluation

text \<open>
  The constructor: \<open>CalcOffsets(propagation_range)\<close>, then the registrations.
  \<open>propagation_conv\<close> tells whether that module was registered.
\<close>

definition PatchMatchModuleImpl ::
  "int \<Rightarrow> int \<Rightarrow> int \<Rightarrow> real \<Rightarrow> int \<Rightarrow> int \<Rightarrow> int \<Rightarrow> int \<Rightarrow> int \<Rightarrow> error + PatchMatchModule" where
  "PatchMatchModuleImpl propagation_range iters n_samples interval_scale num_features
       group_correlations prop_neighbors eval_neighbors stg =
     (case CalcOffsets prop_neighbors eval_neighbors propagation_range of
        Inl e \<Rightarrow> Inl e
      | Inr (p, v, out) \<Rightarrow>
          Inr \<lparr>propagation_neighbors = prop_neighbors,
               evaluation_neighbors = eval_neighbors,
               iterations = iters,
               stage = stg,
               prop_offset_orig = p,
               eval_offset_orig = v,
               propagation_conv = (prop_neighbors > 0 \<and> \<not> (stg = 1 \<and> iters = 1)),
               evaluation = EvaluationImpl group_correlations stg\<rparr>)"

text \<open>
  The loop of \<open>PatchMatchModuleImpl::forward\<close> at iteration \<open>iter\<close> with \<open>k\<close> iterations to
  go, carrying \<open>(depth, score, view_weights)\<close>. \<open>init_depth->forward\<close> returns a defined
  tensor whatever it is given; \<open>propagation->forward\<close> reads the sizes of
  \<open>propagation_grid\<close>.
\<close>

fun iter_loop ::
  "PatchMatchModule \<Rightarrow> nat \<Rightarrow> tensor \<Rightarrow> int \<Rightarrow> nat \<Rightarrow> tensor \<times> tensor \<times> tensor
   \<Rightarrow> error + (tensor \<times> tensor \<times> tensor)" where
  "iter_loop m n_src propagation_grid iter 0 st = Inr st"
| "iter_loop m n_src propagation_grid iter (Suc k) (depth, score, view_weights) =
     (let depth1 = Defined in
      case (if propagation_neighbors m > 0 \<and> \<not> (stage m = 1 \<and> iter = iterations m - 1)
            then (if propagation_grid = Undefined then Inl UndefinedTensor else Inr Defined)
            else Inr depth1) of
        Inl e \<Rightarrow> Inl e
      | Inr depth2 \<Rightarrow>
          (case Evaluation_forward (evaluation m) n_src depth2 view_weights of
             Inl e \<Rightarrow> Inl e
           | Inr st' \<Rightarrow> iter_loop m n_src propagation_grid (iter + 1) k st'))"

text \<open>
  \<open>PatchMatchModuleImpl::forward\<close>; the result is
  \<open>{depth.unsqueeze(1).detach(), score, view_weights}\<close>.
\<close>

definition PatchMatchModule_forward ::
  "PatchMatchModule \<Rightarrow> nat \<Rightarrow> tensor \<Rightarrow> tensor \<Rightarrow> error + (tensor \<times> tensor \<times> tensor)" where
  "PatchMatchModule_forward m n_src depth_init view_weights_init =
     (let propagation_grid = (if propagation_conv m then Defined else Undefined) in
      case iter_loop m n_src propagation_grid 0 (nat (iterations m))
             (depth_init, Undefined, view_weights_init) of
        Inl e \<Rightarrow> Inl e
      | Inr (depth, score, view_weights) \<Rightarrow>
          if depth = Undefined then Inl UndefinedTensor
          else Inr (Defined, score, view_weights))"

record PatchMatchNetModule =
  num_depth :: int
  patch_match :: "PatchMatchModule list"

text \<open>
  The constructor of \<open>PatchMatchNetModuleImpl\<close>: \<open>num_depth\<close> from \<open>num_samples[0]\<close>, then
  the modules of the stages 1 to \<open>kNumStages - 1\<close>, in this order, each built from entry
  \<open>i\<close> of the configuration vectors with stage \<open>i + 1\<close>.
\<close>

definition kNumStages :: nat where
  "kNumStages = 4"

definition num_features_tab :: "int list" where
  "num_features_tab = [16, 32, 64]"

definition group_correlations_tab :: "int list" where
  "group_correlations_tab = [4, 8, 8]"

definition make_stage ::
  "real list \<Rightarrow> int list \<Rightarrow> int list \<Rightarrow> int list \<Rightarrow> int list \<Rightarrow> int list \<Rightarrow> nat
   \<Rightarrow> error + PatchMatchModule" where
  "make_stage interval_scale propagation_range iters n_samples prop_neighbors eval_neighbors i =
     (case at_vec propagation_range i of Inl e \<Rightarrow> Inl e | Inr pr \<Rightarrow>
      case at_vec iters i of Inl e \<Rightarrow> Inl e | Inr it \<Rightarrow>
      case at_vec n_samples i of Inl e \<Rightarrow> Inl e | Inr ns \<Rightarrow>
      case at_vec interval_scale i of Inl e \<Rightarrow> Inl e | Inr sc \<Rightarrow>
      case at_vec num_features_tab i of Inl e \<Rightarrow> Inl e | Inr nf \<Rightarrow>
      case at_vec group_correlations_tab i of Inl e \<Rightarrow> Inl e | Inr gc \<Rightarrow>
      case at_vec prop_neighbors i of Inl e \<Rightarrow> Inl e | Inr pn \<Rightarrow>
      case at_vec eval_neighbors i of Inl e \<Rightarrow> Inl e | Inr en \<Rightarrow>
        PatchMatchModuleImpl pr it ns sc nf gc pn en (int i + 1))"

definition PatchMatchNetModuleImpl ::
  "real list \<Rightarrow> int list \<Rightarrow> int list \<Rightarrow> int list \<Rightarrow> int list \<Rightarrow> int list
   \<Rightarrow> error + PatchMatchNetModule" where
  "PatchMatchNetModuleImpl interval_scale propagation_range iters n_samples prop_neighbors
       eval_neighbors =
     (case at_vec n_samples 0 of Inl e \<Rightarrow> Inl e | Inr nd \<Rightarrow>
      case make_stage interval_scale propagation_range iters n_samples prop_neighbors
             eval_neighbors 0 of Inl e \<Rightarrow> Inl e | Inr m1 \<Rightarrow>
      case make_stage interval_scale propagation_range iters n_samples prop_neighbors
             eval_neighbors 1 of Inl e \<Rightarrow> Inl e | Inr m2 \<Rightarrow>
      case make_stage interval_scale propagation_range iters n_samples prop_neighbors
             eval_neighbors 2 of Inl e \<Rightarrow> Inl e | Inr m3 \<Rightarrow>
        Inr \<lparr>num_depth = nd, patch_match = [m1, m2, m3]\<rparr>)"

text \<open>
  The loop over the stages of \<open>PatchMatchNetModuleImpl::forward\<close>, at stage \<open>Suc k\<close> and
  counting down, carrying \<open>(depth, score, view_weights)\<close>. Above stage 1 the depth and
  the view weights are interpolated, which needs them defined.
\<close>

fun stage_loop ::
  "PatchMatchModule list \<Rightarrow> nat \<Rightarrow> nat \<Rightarrow> tensor \<times> tensor \<times> tensor
   \<Rightarrow> error + (tensor \<times> tensor \<times> tensor)" where
  "stage_loop pm n_src 0 st = Inr st"
| "stage_loop pm n_src (Suc k) (depth, score, view_weights) =
     (case at_vec pm k of
        Inl e \<Rightarrow> Inl e
      | Inr m \<Rightarrow>
          (case PatchMatchModule_forward m n_src depth view_weights of
             Inl e \<Rightarrow> Inl e
           | Inr (depth', score', view_weights') \<Rightarrow>
               if Suc k > 1 then
                 (if depth' = Undefined \<or> view_weights' = Undefined then Inl UndefinedTensor
                  else stage_loop pm n_src k (Defined, score', Defined))
               else stage_loop pm n_src k (depth', score', view_weights')))"

text \<open>
  \<open>PatchMatchNetModuleImpl::forward\<close> for an image batch of \<open>n_views\<close> views:
  \<open>images.select(1, 0)\<close> needs a view, every further view is a source view, and after the
  stages the refinement reads \<open>depth\<close> and \<open>CalcConfidence\<close> reads \<open>score\<close>. The result is
  \<open>{depth, conf}\<close>.
\<close>

definition PatchMatchNetModule_forward ::
  "PatchMatchNetModule \<Rightarrow> nat \<Rightarrow> error + (tensor \<times> tensor)" where
  "PatchMatchNetModule_forward net n_views =
     (if n_views = 0 then Inl IndexError
      else
        case stage_loop (patch_match net) (n_views - 1) (kNumStages - 1)
               (Undefined, Undefined, Undefined) of
          Inl e \<Rightarrow> Inl e
        | Inr (depth, score, view_weights) \<Rightarrow>
            if depth = Undefined \<or> score = Undefined then Inl UndefinedTensor
            else Inr (Defined, Defined))"

subsection \<open>\<open>ReadValues\<close> and \<open>PatchMatchNetModuleImpl::load\<close>\<close>

text \<open>
  The archive is a collaborator: a store of values under names, read by \<open>try_read\<close>,
  which returns whether the name is stored and, if so, the value. The dictionary of
  parameters or buffers is ordered; \<open>param_dict\<close> maps an expected name to its alternate
  name. \<open>copy\<close> is the library's \<open>copy_\<close> (the first argument the destination), which may
  raise. The result is the updated dictionary and the lines printed.
\<close>

definition try_read :: "(string \<rightharpoonup> 'v) \<Rightarrow> string \<Rightarrow> 'v option \<Rightarrow> bool \<times> 'v option" where
  "try_read archive key v = (case archive key of None \<Rightarrow> (False, v) | Some r \<Rightarrow> (True, Some r))"

definition warning :: "bool \<Rightarrow> string \<Rightarrow> string" where
  "warning is_buffer key =
     ''WARN: archive does not contain '' @ (if is_buffer then ''buffer'' else ''parameter'')
       @ '': '' @ key"

fun ReadValues ::
  "('v \<Rightarrow> 'v \<Rightarrow> error + 'v) \<Rightarrow> (string \<rightharpoonup> 'v) \<Rightarrow> (string \<times> 'v) list \<Rightarrow> (string \<rightharpoonup> string)
   \<Rightarrow> bool \<Rightarrow> error + ((string \<times> 'v) list \<times> string list)" where
  "ReadValues copy archive [] param_dict is_buffer = Inr ([], [])"
| "ReadValues copy archive ((key, param) # rest) param_dict is_buffer =
     (let (found, v) =
            (case param_dict key of
               Some alt \<Rightarrow> try_read archive alt None
             | None \<Rightarrow> (False, None));
          (found, v) = (if \<not> found then try_read archive key v else (found, v))
      in
      if found then
        (case copy param (the v) of
           Inl e \<Rightarrow> Inl e
         | Inr param' \<Rightarrow>
             (case ReadValues copy archive rest param_dict is_buffer of
                Inl e \<Rightarrow> Inl e
              | Inr (rest', out) \<Rightarrow> Inr ((key, param') # rest', out)))
      else
        (case ReadValues copy archive rest param_dict is_buffer of
           Inl e \<Rightarrow> Inl e
         | Inr (rest', out) \<Rightarrow> Inr ((key, param) # rest', warning is_buffer key # out)))"

record 'v module_tensors =
  param_dict :: "string \<rightharpoonup> string"
  named_parameters :: "(string \<times> 'v) list"
  named_buffers :: "(string \<times> 'v) list"

definition load ::
  "('v \<Rightarrow> 'v \<Rightarrow> error + 'v) \<Rightarrow> (string \<rightharpoonup> 'v) \<Rightarrow> 'v module_tensors
   \<Rightarrow> error + ('v module_tensors \<times> string list)" where
  "load copy archive m =
     (case ReadValues copy archive (named_parameters m) (param_dict m) False of
        Inl e \<Rightarrow> Inl e
      | Inr (ps, out1) \<Rightarrow>
          (case ReadValues copy archive (named_buffers m) (param_dict m) True of
             Inl e \<Rightarrow> Inl e
           | Inr (bs, out2) \<Rightarrow>
               Inr (m\<lparr>named_parameters := ps, named_buffers := bs\<rparr>, out1 @ out2)))"

text \<open>
  The name resolution the specification describes: the alternate name of the table first
  (when the table has the expected name), then the expected name itself. This definition
  follows the specification's words, for comparison with \<open>ReadValues\<close>.
\<close>

definition spec_resolve :: "(string \<rightharpoonup> 'v) \<Rightarrow> (string \<rightharpoonup> string) \<Rightarrow> string \<Rightarrow> 'v option" where
  "spec_resolve archive names key =
     (case names key of
        Some alt \<Rightarrow> (case archive alt of Some v \<Rightarrow> Some v | None \<Rightarrow> archive key)
      | None \<Rightarrow> archive key)"

text \<open>
  What the specification asks of one entry \<open>(k, p)\<close> of a dictionary and the entry
  \<open>(k', p')\<close> after loading: the name is kept; a resolved value was copied into the
  parameter; an unresolved name leaves the parameter as it was and prints the warning.
\<close>

definition entry_loaded ::
  "('v \<Rightarrow> 'v \<Rightarrow> error + 'v) \<Rightarrow> (string \<rightharpoonup> 'v) \<Rightarrow> (string \<rightharpoonup> string) \<Rightarrow> bool \<Rightarrow> string list
   \<Rightarrow> string \<times> 'v \<Rightarrow> string \<times> 'v \<Rightarrow> bool" where
  "entry_loaded copy archive names is_buffer out e e' =
     (fst e' = fst e \<and>
      (case spec_resolve archive names (fst e) of
         Some v \<Rightarrow> copy (snd e) v = Inr (snd e')
       | None \<Rightarrow> snd e' = snd e \<and> warning is_buffer (fst e) \<in> set out))"

section \<open>Properties\<close>

subsection \<open>Offset tables\<close>

lemma eval17_loop_short:
  "i \<le> length p \<Longrightarrow> i + n > length p \<Longrightarrow> eval17_loop p i n v = Inl OutOfBounds"
proof (induction n arbitrary: i v)
  case 0
  then show ?case by simp
next
  case (Suc n)
  show ?case
  proof (cases "i < length p")
    case True
    with Suc.prems have "Suc i \<le> length p" and "Suc i + n > length p" by simp_all
    from Suc.IH [OF this] True show ?thesis
      by (simp add: at_vec_def split: prod.splits)
  next
    case False
    then show ?thesis by (simp add: at_vec_def)
  qed
qed

lemma eval17_loop_long:
  "i + n \<le> length p \<Longrightarrow> \<exists>w. eval17_loop p i n v = Inr w"
proof (induction n arbitrary: i v)
  case 0
  then show ?case by simp
next
  case (Suc n)
  then have "i < length p" and "Suc i + n \<le> length p" by simp_all
  with Suc.IH show ?case
    by (simp add: at_vec_def split: prod.splits)
qed

lemma prop16_loop_length:
  "i + n \<le> length v \<Longrightarrow> \<exists>w. prop16_loop i n v = Inr w \<and> length w = length v + n"
proof (induction n arbitrary: i v)
  case 0
  then show ?case by simp
next
  case (Suc n)
  then have i: "i < length v" by simp
  obtain a b where ab: "v ! i = (a, b)" by (cases "v ! i")
  from Suc.prems have "Suc i + n \<le> length (v @ [(2 * a, 2 * b)])" by simp
  from Suc.IH [OF this] i ab show ?case
    by (auto simp: at_vec_def)
qed

lemma calc_prop_offsets_length:
  "\<exists>p out. calc_prop_offsets pn d = Inr (p, out) \<and>
     length p = (if pn = 4 then 4 else if pn = 8 then 8 else if pn = 16 then 16 else 0)"
proof (cases "pn = 16")
  case True
  have "0 + 8 \<le> length (ring8 d)" by (simp add: ring8_def)
  from prop16_loop_length [OF this]
  obtain w where "prop16_loop 0 8 (ring8 d) = Inr w" and "length w = length (ring8 d) + 8"
    by blast
  with True show ?thesis by (simp add: calc_prop_offsets_def ring8_def)
next
  case False
  then show ?thesis by (simp add: calc_prop_offsets_def ring8_def)
qed

text \<open>
  C9. With \<open>evaluation_neighbors = 17\<close> the second switch reads the first eight entries of
  \<open>prop_offset_orig\<close>. \<open>CalcOffsets\<close> therefore completes exactly when
  \<open>propagation_neighbors\<close> is 8 or 16; for every other value, and in particular for 0 and 4
  (tables of size 0 and 4), it reads \<open>prop_offset_orig\<close> past its end. The constructor of
  \<open>PatchMatchModuleImpl\<close>, which calls \<open>CalcOffsets\<close>, completes under the same condition.
\<close>

theorem CalcOffsets_17_reads_prop_table:
  "((\<exists>r. CalcOffsets pn 17 d = Inr r) \<longleftrightarrow> pn = 8 \<or> pn = 16) \<and>
   (CalcOffsets pn 17 d = Inl OutOfBounds \<longleftrightarrow> \<not> (pn = 8 \<or> pn = 16)) \<and>
   CalcOffsets 0 17 d = Inl OutOfBounds \<and>
   CalcOffsets 4 17 d = Inl OutOfBounds \<and>
   ((\<exists>m. PatchMatchModuleImpl d its ns sc nf gc pn 17 stg = Inr m) \<longleftrightarrow> pn = 8 \<or> pn = 16)"
proof -
  have gen: "\<And>pn. (pn = 8 \<or> pn = 16 \<longrightarrow> (\<exists>r. CalcOffsets pn 17 d = Inr r)) \<and>
      (\<not> (pn = 8 \<or> pn = 16) \<longrightarrow> CalcOffsets pn 17 d = Inl OutOfBounds)"
  proof -
    fix pn :: int
    obtain p out where p: "calc_prop_offsets pn d = Inr (p, out)"
      and len: "length p = (if pn = 4 then 4 else if pn = 8 then 8 else if pn = 16 then 16 else 0)"
      using calc_prop_offsets_length [of pn d] by blast
    show "(pn = 8 \<or> pn = 16 \<longrightarrow> (\<exists>r. CalcOffsets pn 17 d = Inr r)) \<and>
      (\<not> (pn = 8 \<or> pn = 16) \<longrightarrow> CalcOffsets pn 17 d = Inl OutOfBounds)"
    proof (cases "pn = 8 \<or> pn = 16")
      case True
      with len have "0 + 8 \<le> length p" by auto
      from eval17_loop_long [OF this, of "square9 (d - 1)"]
      obtain w where "eval17_loop p 0 8 (square9 (d - 1)) = Inr w" by blast
      with p True show ?thesis
        by (simp add: CalcOffsets_def calc_eval_offsets_def)
    next
      case False
      with len have "0 + 8 > length p" by auto
      from eval17_loop_short [OF _ this, of "square9 (d - 1)"] p False show ?thesis
        by (simp add: CalcOffsets_def calc_eval_offsets_def)
    qed
  qed
  have a: "(\<exists>r. CalcOffsets pn 17 d = Inr r) \<longleftrightarrow> pn = 8 \<or> pn = 16"
    using gen [of pn] by auto
  have b: "CalcOffsets pn 17 d = Inl OutOfBounds \<longleftrightarrow> \<not> (pn = 8 \<or> pn = 16)"
    using gen [of pn] by auto
  have c: "CalcOffsets 0 17 d = Inl OutOfBounds" using gen [of 0] by simp
  have e: "CalcOffsets 4 17 d = Inl OutOfBounds" using gen [of 4] by simp
  have f: "(\<exists>m. PatchMatchModuleImpl d its ns sc nf gc pn 17 stg = Inr m) \<longleftrightarrow> pn = 8 \<or> pn = 16"
    using gen [of pn] by (auto simp: PatchMatchModuleImpl_def split: sum.splits)
  from a b c e f show ?thesis by blast
qed

theorem CalcOffsets_17_reads_prop_table_witness:
  "CalcOffsets 4 17 2 = Inl OutOfBounds \<and>
   CalcOffsets 8 17 2 =
     Inr (ring8 2, square9 1 @ map (\<lambda>(a, b). (2 * a, 2 * b)) (ring8 2), [])"
  using CalcOffsets_17_reads_prop_table [of 4 2]
  by (simp add: CalcOffsets_def calc_prop_offsets_def calc_eval_offsets_def ring8_def
      at_vec_def eval_nat_numeral)

subsection \<open>Propagation\<close>

lemma pixel_samples_sort1:
  "pixel_samples (sort1 t) y x = sort (pixel_samples t y x)"
proof -
  have len: "length (sort (pixel_samples t y x)) = vol_n t"
    by (simp add: pixel_samples_def)
  have "pixel_samples (sort1 t) y x
          = map (\<lambda>s. sort (pixel_samples t y x) ! s) [0..<vol_n t]"
    by (simp add: pixel_samples_def sort1_def)
  also have "\<dots> = sort (pixel_samples t y x)"
    using len map_nth [of "sort (pixel_samples t y x)"] by simp
  finally show ?thesis .
qed

lemma pixel_samples_cat1:
  "pixel_samples (cat1 a b) y x = pixel_samples a y x @ pixel_samples b y x"
  by (rule nth_equalityI) (auto simp: pixel_samples_def cat1_def nth_append)

lemma view_neighbors_at:
  assumes "grid_w g = width" "x < width"
  shows "view_neighbors g sampled height width n y x = sampled (n * height + y) x"
  using assms by (simp add: view_neighbors_def Let_def)

lemma Propagation_forward_ok:
  assumes "0 < vol_h depth" "0 < vol_w depth" "0 < vol_n depth"
    and "grid_h g = k * vol_h depth" "grid_w g = vol_w depth"
  shows "Propagation_forward depth g =
     Inr (sort1 (cat1 depth
       \<lparr>vol_n = k, vol_h = vol_h depth, vol_w = vol_w depth,
        vol_at = view_neighbors g
          (\<lambda>i j. grid_sample_border (select1 depth (vol_n depth div 2)) (grid_at g i j))
          (vol_h depth) (vol_w depth)\<rparr>))"
  using assms by (simp add: Propagation_forward_def Let_def)

lemma Propagation_forward_pixel:
  assumes "0 < vol_h depth" "0 < vol_w depth" "0 < vol_n depth"
    and "grid_h g = k * vol_h depth" "grid_w g = vol_w depth"
  shows "\<exists>out. Propagation_forward depth g = Inr out \<and>
      vol_n out = vol_n depth + k \<and> vol_h out = vol_h depth \<and> vol_w out = vol_w depth \<and>
      (\<forall>y x. x < vol_w depth \<longrightarrow>
         pixel_samples out y x =
           sort (pixel_samples depth y x @
                 map (\<lambda>n. grid_sample_border (select1 depth (vol_n depth div 2))
                              (grid_at g (n * vol_h depth + y) x)) [0..<k]))"
proof -
  let ?nbr = "\<lparr>vol_n = k, vol_h = vol_h depth, vol_w = vol_w depth,
        vol_at = view_neighbors g
          (\<lambda>i j. grid_sample_border (select1 depth (vol_n depth div 2)) (grid_at g i j))
          (vol_h depth) (vol_w depth)\<rparr>"
  let ?out = "sort1 (cat1 depth ?nbr)"
  have ret: "Propagation_forward depth g = Inr ?out"
    using assms by (rule Propagation_forward_ok)
  have sizes: "vol_n ?out = vol_n depth + k" "vol_h ?out = vol_h depth"
      "vol_w ?out = vol_w depth"
    by (simp_all add: sort1_def cat1_def)
  have px: "pixel_samples ?out y x =
           sort (pixel_samples depth y x @
                 map (\<lambda>n. grid_sample_border (select1 depth (vol_n depth div 2))
                              (grid_at g (n * vol_h depth + y) x)) [0..<k])"
    if "x < vol_w depth" for y x
  proof -
    have "pixel_samples ?nbr y x =
        map (\<lambda>n. grid_sample_border (select1 depth (vol_n depth div 2))
                              (grid_at g (n * vol_h depth + y) x)) [0..<k]"
      using that assms(5) by (simp add: pixel_samples_def view_neighbors_at)
    then show ?thesis
      by (simp add: pixel_samples_sort1 pixel_samples_cat1)
  qed
  from ret sizes px show ?thesis by blast
qed

lemma vol_at_pixel_samples:
  "i < vol_n t \<Longrightarrow> vol_at t i y x = pixel_samples t y x ! i"
  by (simp add: pixel_samples_def)

text \<open>
  C5. For a depth hypothesis volume with \<open>d\<close> samples per pixel (at least one, on an image
  with pixels) and a propagation grid encoding \<open>k\<close> neighbours (\<open>k * height\<close> rows of
  \<open>width\<close> entries), \<open>PropagationImpl::forward\<close> returns a volume with \<open>d + k\<close> samples
  per pixel. At every pixel the samples are sorted ascending, and they are the \<open>d\<close> given
  samples together with \<open>k\<close> further ones: for each neighbour \<open>n\<close> the middle hypothesis
  (index \<open>d div 2\<close>) sampled with border padding at the grid entry of that neighbour and
  pixel.
\<close>

theorem Propagation_forward_sorted:
  assumes "0 < vol_h depth" "0 < vol_w depth" "vol_n depth = d" "0 < d"
    and "grid_h g = k * vol_h depth" "grid_w g = vol_w depth"
  shows "\<exists>out. Propagation_forward depth g = Inr out \<and>
      vol_n out = d + k \<and> vol_h out = vol_h depth \<and> vol_w out = vol_w depth \<and>
      (\<forall>y<vol_h depth. \<forall>x<vol_w depth.
         sorted (pixel_samples out y x) \<and>
         length (pixel_samples out y x) = d + k \<and>
         mset (pixel_samples out y x) =
           mset (pixel_samples depth y x) +
           mset (map (\<lambda>n. grid_sample_border (select1 depth (d div 2))
                              (grid_at g (n * vol_h depth + y) x)) [0..<k]))"
proof -
  from assms have "0 < vol_n depth" by simp
  from Propagation_forward_pixel [OF assms(1,2) this assms(5,6)]
  obtain out where ret: "Propagation_forward depth g = Inr out"
    and sizes: "vol_n out = vol_n depth + k" "vol_h out = vol_h depth" "vol_w out = vol_w depth"
    and px: "\<And>y x. x < vol_w depth \<Longrightarrow> pixel_samples out y x =
           sort (pixel_samples depth y x @
                 map (\<lambda>n. grid_sample_border (select1 depth (vol_n depth div 2))
                              (grid_at g (n * vol_h depth + y) x)) [0..<k])"
    by blast
  have "sorted (pixel_samples out y x) \<and>
         length (pixel_samples out y x) = d + k \<and>
         mset (pixel_samples out y x) =
           mset (pixel_samples depth y x) +
           mset (map (\<lambda>n. grid_sample_border (select1 depth (d div 2))
                              (grid_at g (n * vol_h depth + y) x)) [0..<k])"
    if "x < vol_w depth" for y x
    using px [OF that] assms(3) by (simp add: pixel_samples_def)
  with ret sizes assms(3) show ?thesis by auto
qed

theorem Propagation_forward_sorted_witness:
  "map_sum id (\<lambda>out. (vol_n out, pixel_samples out 0 0, pixel_samples out 0 1))
     (Propagation_forward
        \<lparr>vol_n = 2, vol_h = 1, vol_w = 2, vol_at = (\<lambda>s y x. 3 - real s + real x)\<rparr>
        \<lparr>grid_h = 1, grid_w = 2, grid_at = (\<lambda>i j. (1 / 2 - real j, 0))\<rparr>)
   = Inr (3, [2, 3, 3], [2, 3, 4])"
  using Propagation_forward_sorted
    [of "\<lparr>vol_n = 2, vol_h = 1, vol_w = 2, vol_at = (\<lambda>s y x. 3 - real s + real x)\<rparr>" 2
        "\<lparr>grid_h = 1, grid_w = 2, grid_at = (\<lambda>i j. (1 / 2 - real j, 0))\<rparr>" 1]
  by (simp add: Propagation_forward_def Let_def sort1_def cat1_def pixel_samples_def
      select1_def view_neighbors_def grid_sample_border_def bilinear_at_def corner_def
      within_bounds_def unnormalize_def clip_coordinates_def upt_rec)

text \<open>
  C6, as the claim states it, fails: two hypotheses of a pixel can be equal after the sort.
  Here both pixels hold the hypotheses 1 and 2 and the grid points every pixel at its own
  centre, so the propagated middle hypothesis is 2 again.
\<close>

theorem Propagation_forward_not_strict:
  "map_sum id (\<lambda>out. (vol_at out 1 0 0, vol_at out 2 0 0))
     (Propagation_forward
        \<lparr>vol_n = 2, vol_h = 1, vol_w = 2, vol_at = (\<lambda>s y x. real s + 1)\<rparr>
        \<lparr>grid_h = 1, grid_w = 2, grid_at = (\<lambda>i j. ((2 * real j + 1) / 2 - 1, 0))\<rparr>)
   = Inr (2, 2)"
  by (simp add: Propagation_forward_def Let_def sort1_def cat1_def pixel_samples_def
      select1_def view_neighbors_def grid_sample_border_def bilinear_at_def corner_def
      within_bounds_def unnormalize_def clip_coordinates_def upt_rec)

text \<open>
  C6, amended. The hypotheses of every pixel returned by \<open>PropagationImpl::forward\<close> are
  non-decreasing along the sample axis; they are strictly increasing exactly when the
  \<open>d\<close> given and the \<open>k\<close> propagated candidates of that pixel are pairwise distinct.
\<close>

theorem Propagation_forward_nondecreasing:
  assumes "0 < vol_h depth" "0 < vol_w depth" "vol_n depth = d" "0 < d"
    and "grid_h g = k * vol_h depth" "grid_w g = vol_w depth"
  shows "\<exists>out. Propagation_forward depth g = Inr out \<and>
      (\<forall>y<vol_h depth. \<forall>x<vol_w depth.
         (\<forall>i j. i < j \<and> j < d + k \<longrightarrow> vol_at out i y x \<le> vol_at out j y x) \<and>
         ((\<forall>i j. i < j \<and> j < d + k \<longrightarrow> vol_at out i y x < vol_at out j y x) \<longleftrightarrow>
          distinct (pixel_samples depth y x @
                    map (\<lambda>n. grid_sample_border (select1 depth (d div 2))
                              (grid_at g (n * vol_h depth + y) x)) [0..<k])))"
proof -
  from assms have "0 < vol_n depth" by simp
  from Propagation_forward_pixel [OF assms(1,2) this assms(5,6)]
  obtain out where ret: "Propagation_forward depth g = Inr out"
    and n: "vol_n out = vol_n depth + k"
    and px: "\<And>y x. x < vol_w depth \<Longrightarrow> pixel_samples out y x =
           sort (pixel_samples depth y x @
                 map (\<lambda>n. grid_sample_border (select1 depth (vol_n depth div 2))
                              (grid_at g (n * vol_h depth + y) x)) [0..<k])"
    by blast
  have main: "(\<forall>i j. i < j \<and> j < d + k \<longrightarrow> vol_at out i y x \<le> vol_at out j y x) \<and>
         ((\<forall>i j. i < j \<and> j < d + k \<longrightarrow> vol_at out i y x < vol_at out j y x) \<longleftrightarrow>
          distinct (pixel_samples depth y x @
                    map (\<lambda>n. grid_sample_border (select1 depth (d div 2))
                              (grid_at g (n * vol_h depth + y) x)) [0..<k]))"
    if x: "x < vol_w depth" for y x
  proof -
    let ?cands = "pixel_samples depth y x @
                    map (\<lambda>n. grid_sample_border (select1 depth (d div 2))
                              (grid_at g (n * vol_h depth + y) x)) [0..<k]"
    let ?l = "pixel_samples out y x"
    have l: "?l = sort ?cands" using px [OF x] assms(3) by simp
    have len: "length ?l = d + k" using n assms(3) by (simp add: pixel_samples_def)
    have at: "\<And>i. i < d + k \<Longrightarrow> vol_at out i y x = ?l ! i"
      using n assms(3) by (simp add: vol_at_pixel_samples)
    have sorted: "sorted ?l" using l by simp
    have mono: "\<forall>i j. i < j \<and> j < d + k \<longrightarrow> vol_at out i y x \<le> vol_at out j y x"
    proof (intro allI impI)
      fix i j assume ij: "i < j \<and> j < d + k"
      then have "?l ! i \<le> ?l ! j"
        using sorted len by (simp add: sorted_nth_mono)
      with ij at show "vol_at out i y x \<le> vol_at out j y x" by simp
    qed
    have "(\<forall>i j. i < j \<and> j < d + k \<longrightarrow> vol_at out i y x < vol_at out j y x)
          \<longleftrightarrow> (\<forall>i j. i < j \<longrightarrow> j < length ?l \<longrightarrow> ?l ! i < ?l ! j)"
      using at len by auto
    also have "\<dots> \<longleftrightarrow> sorted_wrt (<) ?l"
      by (simp add: sorted_wrt_iff_nth_less)
    also have "\<dots> \<longleftrightarrow> distinct ?l"
      using sorted by (simp add: strict_sorted_iff)
    also have "\<dots> \<longleftrightarrow> distinct ?cands"
      unfolding l by (rule distinct_sort)
    finally show ?thesis using mono by blast
  qed
  with ret show ?thesis by blast
qed

theorem Propagation_forward_nondecreasing_witness:
  "map_sum id (\<lambda>out. (pixel_samples out 0 0, pixel_samples out 0 1))
     (Propagation_forward
        \<lparr>vol_n = 2, vol_h = 1, vol_w = 2, vol_at = (\<lambda>s y x. 5 - real s + 2 * real x)\<rparr>
        \<lparr>grid_h = 1, grid_w = 2, grid_at = (\<lambda>i j. (1 / 2 - real j, 0))\<rparr>)
   = Inr ([4, 5, 6], [4, 6, 7])"
  using Propagation_forward_nondecreasing
    [of "\<lparr>vol_n = 2, vol_h = 1, vol_w = 2, vol_at = (\<lambda>s y x. 5 - real s + 2 * real x)\<rparr>" 2
        "\<lparr>grid_h = 1, grid_w = 2, grid_at = (\<lambda>i j. (1 / 2 - real j, 0))\<rparr>" 1]
  by (simp add: Propagation_forward_def Let_def sort1_def cat1_def pixel_samples_def
      select1_def view_neighbors_def grid_sample_border_def bilinear_at_def corner_def
      within_bounds_def unnormalize_def clip_coordinates_def upt_rec)

subsection \<open>Depth initialisation\<close>

lemma InitDepth_cold_start_eq:
  "InitDepth_forward num_samples interval_scale None depth_min depth_max height width rand =
     Inr \<lparr>vol_n = 48, vol_h = height, vol_w = width,
          vol_at = (\<lambda>s y x. 1 / (((1 / depth_min - 1 / depth_max) / 48) * (rand s y x + real s)
                                   + 1 / depth_max))\<rparr>"
  by (simp add: InitDepth_forward_def Let_def)

lemma inverse_depth_bin:
  fixes a b :: real
  assumes "0 < a" "a < b" "s < (48 :: nat)"
  defines "q \<equiv> ((b - a) / 48) * (0 + real s) + a"
  shows "a \<le> q" "q < b" "0 < q" "q = a \<longleftrightarrow> s = 0"
proof -
  define c where "c = (b - a) * real s"
  have eq: "q = c / 48 + a" by (simp add: q_def c_def)
  have c0: "0 \<le> c" using assms(2) by (simp add: c_def)
  have "real s < 48" using assms(3) by simp
  then have "(b - a) * real s < (b - a) * 48"
    using assms(2) by (intro mult_strict_left_mono) simp_all
  then have c1: "c < (b - a) * 48" by (simp add: c_def)
  show "a \<le> q" using eq c0 by simp
  show "q < b" using eq c1 by simp
  show "0 < q" using eq c0 assms(1) by simp
  have "c = 0 \<longleftrightarrow> s = 0" using assms(2) by (simp add: c_def)
  then show "q = a \<longleftrightarrow> s = 0" using eq by simp
qed

lemma reciprocal_bounds:
  fixes a b q :: real
  assumes "0 < a" "a \<le> q" "q < b"
  shows "1 / b < 1 / q" "1 / q \<le> 1 / a" "1 / q = 1 / a \<longleftrightarrow> q = a"
  using assms by (simp_all add: frac_less2 frac_le)

text \<open>
  C3, amended. With no prior depth and \<open>0 < depth_min < depth_max\<close>,
  \<open>InitDepthImpl::forward\<close> returns 48 hypotheses per pixel. Before the noise (\<open>rand\<close> zero)
  hypothesis \<open>s\<close> has the inverse depth \<open>1 / depth_max + s * (1 / depth_min - 1 / depth_max) / 48\<close>;
  the hypotheses lie in the half-open interval \<open>(depth_min, depth_max]\<close>, hypothesis 0 being
  \<open>depth_max\<close> itself and no other; and the inverse depths strictly increase with the
  hypothesis index.
\<close>

theorem InitDepth_cold_start:
  assumes "0 < depth_min" "depth_min < depth_max"
  shows "\<exists>v. InitDepth_forward num_samples interval_scale None depth_min depth_max height width
               (\<lambda>s y x. 0) = Inr v \<and>
      vol_n v = 48 \<and> vol_h v = height \<and> vol_w v = width \<and>
      (\<forall>s y x. s < 48 \<longrightarrow>
         1 / vol_at v s y x
           = 1 / depth_max + real s * ((1 / depth_min - 1 / depth_max) / 48) \<and>
         depth_min < vol_at v s y x \<and> vol_at v s y x \<le> depth_max \<and>
         (vol_at v s y x = depth_max \<longleftrightarrow> s = 0)) \<and>
      (\<forall>s t y x. s < t \<and> t < 48 \<longrightarrow> 1 / vol_at v s y x < 1 / vol_at v t y x)"
proof -
  define a where "a = 1 / depth_max"
  define b where "b = 1 / depth_min"
  define q where "q s = ((b - a) / 48) * (0 + real s) + a" for s :: nat
  define v where "v = \<lparr>vol_n = 48, vol_h = height, vol_w = width,
          vol_at = (\<lambda>s y x. 1 / (((1 / depth_min - 1 / depth_max) / 48) * (0 + real s)
                                   + 1 / depth_max))\<rparr>"
  have ret: "InitDepth_forward num_samples interval_scale None depth_min depth_max height width
               (\<lambda>s y x. 0) = Inr v"
    unfolding v_def by (rule InitDepth_cold_start_eq)
  have sizes: "vol_n v = 48" "vol_h v = height" "vol_w v = width"
    by (simp_all add: v_def)
  have at: "vol_at v s y x = 1 / q s" for s y x
    by (simp add: v_def q_def a_def b_def)
  have a: "0 < a" using assms by (simp add: a_def)
  have ab: "a < b" using assms by (simp add: a_def b_def frac_less2)
  have dmin: "1 / b = depth_min" and dmax: "1 / a = depth_max"
    by (simp_all add: a_def b_def)
  have per: "1 / vol_at v s y x
           = 1 / depth_max + real s * ((1 / depth_min - 1 / depth_max) / 48) \<and>
         depth_min < vol_at v s y x \<and> vol_at v s y x \<le> depth_max \<and>
         (vol_at v s y x = depth_max \<longleftrightarrow> s = 0)" if s: "s < 48" for s y x
  proof -
    have lo: "a \<le> q s" and hi: "q s < b" and pos: "0 < q s"
      and z: "q s = a \<longleftrightarrow> s = 0"
      using inverse_depth_bin [OF a ab s] by (simp_all add: q_def)
    have "1 / vol_at v s y x = q s" by (simp add: at)
    also have "\<dots> = 1 / depth_max + real s * ((1 / depth_min - 1 / depth_max) / 48)"
      by (simp add: q_def a_def b_def)
    finally have 1: "1 / vol_at v s y x
           = 1 / depth_max + real s * ((1 / depth_min - 1 / depth_max) / 48)" .
    have 2: "depth_min < vol_at v s y x"
      using reciprocal_bounds(1) [OF a lo hi] by (simp only: at dmin)
    have 3: "vol_at v s y x \<le> depth_max"
      using reciprocal_bounds(2) [OF a lo hi] by (simp only: at dmax)
    have 4: "vol_at v s y x = depth_max \<longleftrightarrow> s = 0"
      using reciprocal_bounds(3) [OF a lo hi] z by (simp only: at dmax)
    from 1 2 3 4 show ?thesis by blast
  qed
  have ord: "1 / vol_at v s y x < 1 / vol_at v t y x" if st: "s < t \<and> t < 48" for s t y x
  proof -
    have "real s < real t" using st by simp
    then have "(b - a) * real s < (b - a) * real t"
      using ab by (intro mult_strict_left_mono) simp_all
    then have "q s < q t" by (simp add: q_def)
    then show ?thesis by (simp add: at)
  qed
  from ret sizes per ord show ?thesis by blast
qed

theorem InitDepth_cold_start_witness:
  "(0 :: real) < 1 \<and> (1 :: real) < 2 \<and>
   map_sum id (\<lambda>v. (vol_n v, vol_at v 0 0 0, vol_at v 24 0 0, vol_at v 47 0 0))
     (InitDepth_forward 8 1 None 1 2 1 1 (\<lambda>s y x. 0)) = Inr (48, 2, 4 / 3, 96 / 95)"
  using InitDepth_cold_start [of 1 2 8 1 1 1]
  by (simp add: InitDepth_forward_def Let_def)

text \<open>
  C3, as the claim states it, fails: before the noise hypothesis 0 is \<open>depth_max\<close>, which is
  not inside the open interval. Here \<open>depth_min = 1\<close> and \<open>depth_max = 2\<close>.
\<close>

theorem InitDepth_cold_start_reaches_depth_max:
  "map_sum id (\<lambda>v. (vol_at v 0 0 0, vol_at v 0 0 0 < 2))
     (InitDepth_forward 8 1 None 1 2 1 1 (\<lambda>s y x. 0)) = Inr (2, False)"
  by (simp add: InitDepth_forward_def Let_def)

subsection \<open>The probability volume\<close>






subsection \<open>Warping\<close>

lemma bilinear_at_outside:
  assumes "real (img_w f) \<le> ix"
  shows "bilinear_at f iy ix = 0"
proof -
  have "int (img_w f) \<le> \<lfloor>ix\<rfloor>" using assms by (simp add: le_floor_iff)
  then show ?thesis
    by (simp add: bilinear_at_def Let_def corner_def within_bounds_def)
qed

lemma masked_coordinate:
  fixes n :: nat
  assumes "1 < n"
  shows "1 < real n / ((real n - 1) / 2) - 1"
    and "real n \<le> unnormalize (real n / ((real n - 1) / 2) - 1) n"
proof -
  define w where "w = real n"
  have w: "1 < w" using assms by (simp add: w_def)
  have g: "w / ((w - 1) / 2) - 1 = (w + 1) / (w - 1)"
    using w by (simp add: field_simps)
  have "1 < (w + 1) / (w - 1)" using w by (simp add: field_simps)
  then show "1 < real n / ((real n - 1) / 2) - 1"
    using g by (simp add: w_def)
  have "unnormalize (w / ((w - 1) / 2) - 1) n = (((w + 1) / (w - 1) + 1) * w - 1) / 2"
    unfolding g by (simp add: unnormalize_def w_def)
  also have "\<dots> = (2 * w * w - w + 1) / (2 * (w - 1))"
    using w by (simp add: field_simps)
  also have "w \<le> \<dots>"
    using w by (simp add: field_simps)
  finally show "real n \<le> unnormalize (real n / ((real n - 1) / 2) - 1) n"
    by (simp add: w_def)
qed

lemma normalize_masked:
  fixes n :: nat
  assumes "1 < n"
  shows "normalize (fdiv (real n) 1) n = Some (real n / ((real n - 1) / 2) - 1)"
  using assms by (simp add: normalize_def fdiv_def)

lemma depth_view_same_shape:
  assumes "t4_h depth * t4_w depth = hw" "d < t4_c depth" "y < t4_h depth" "x < t4_w depth"
  shows "depth_view depth hw b d (y * t4_w depth + x) = t4_at depth b d y x"
proof -
  define n where "n = t4_c depth"
  define w where "w = t4_w depth"
  define p where "p = y * w + x"
  have w0: "0 < w" using assms(4) by (simp add: w_def)
  have "y * w + x < y * w + w" using assms(4) by (simp add: w_def)
  also have "\<dots> = (y + 1) * w" by simp
  also have "\<dots> \<le> t4_h depth * w" using assms(3) by (intro mult_le_mono1) simp
  finally have p: "p < hw" using assms(1) by (simp add: p_def w_def)
  define flat where "flat = (b * n + d) * hw + p"
  have f1: "flat div hw = b * n + d" using p by (simp add: flat_def)
  have f2: "flat mod hw = p" using p by (simp add: flat_def)
  have f3: "flat div (hw * n) = b"
    using assms(2) by (simp add: div_mult2_eq f1 n_def)
  have f4: "(flat div hw) mod n = d" using assms(2) by (simp add: f1 n_def)
  have f5: "p div w = y" "p mod w = x" using assms(4) by (simp_all add: p_def w_def)
  show ?thesis
    unfolding depth_view_def Let_def assms(1)
    using f2 f3 f4 f5 by (simp add: flat_def n_def w_def p_def)
qed

lemma warp_point_masked:
  assumes "t4_h depth = t4_h feature" "t4_w depth = t4_w feature"
    and "d < t4_c depth" "y < t4_h feature" "x < t4_w feature"
    and "snd (snd (warp_xyz (matmul4 (proj b) (ref_proj_inv b)) (real x) (real y)
                     (t4_at depth b d y x))) \<le> 1 / 1000"
  shows "warp_point feature proj ref_proj_inv depth b d y x
           = (real (t4_w feature), real (t4_h feature), 1)"
proof -
  have dv: "depth_view depth (t4_h feature * t4_w feature) b d (y * t4_w feature + x)
              = t4_at depth b d y x"
    using depth_view_same_shape [of depth "t4_h feature * t4_w feature" d y x b] assms(1-5)
    by simp
  obtain x' y' z' where xyz: "warp_xyz (matmul4 (proj b) (ref_proj_inv b)) (real x) (real y)
                     (t4_at depth b d y x) = (x', y', z')"
    by (cases "warp_xyz (matmul4 (proj b) (ref_proj_inv b)) (real x) (real y)
                     (t4_at depth b d y x)") auto
  with assms(6) have "z' \<le> 1 / 1000" by simp
  then show ?thesis
    by (simp only: warp_point_def dv warp_masked_def xyz prod.case Let_def masked_fill_def
        if_True)
qed

text \<open>
  C4, amended. For a batch of one and a feature map more than one pixel wide and high, a
  point whose projected depth (the third component of \<open>xyz\<close>) is at most \<open>1e-3\<close>, such as
  one behind the camera at depth \<open>-1\<close>, is remapped to normalised coordinates that both
  exceed 1, outside the sampling range \<open>[-1, 1]\<close>; \<open>DifferentiableWarping\<close> raises no error
  and the warped feature of that point is exactly the zero padding value in every
  channel.
\<close>

theorem DifferentiableWarping_masked_zero:
  assumes "t4_b feature = 1" "1 < t4_h feature" "1 < t4_w feature"
    and "t4_b depth = 1" "t4_h depth = t4_h feature" "t4_w depth = t4_w feature"
    and "d < t4_c depth" "y < t4_h feature" "x < t4_w feature"
    and "snd (snd (warp_xyz (matmul4 (proj 0) (ref_proj_inv 0)) (real x) (real y)
                     (t4_at depth 0 d y x))) \<le> 1 / 1000"
  shows "\<exists>out gx gy. DifferentiableWarping feature proj ref_proj_inv depth = Inr out \<and>
      warp_grid feature proj ref_proj_inv depth 0 d y x = (Some gx, Some gy) \<and>
      1 < gx \<and> 1 < gy \<and>
      wrp_at out 0 c d y x = Some 0"
proof -
  define gx where "gx = real (t4_w feature) / ((real (t4_w feature) - 1) / 2) - 1"
  define gy where "gy = real (t4_h feature) / ((real (t4_h feature) - 1) / 2) - 1"
  have pt: "warp_point feature proj ref_proj_inv depth 0 d y x
           = (real (t4_w feature), real (t4_h feature), 1)"
    using assms(5-10) by (rule warp_point_masked)
  have pxy: "warp_proj_xy feature proj ref_proj_inv depth 0 d y x
           = (fdiv (real (t4_w feature)) 1, fdiv (real (t4_h feature)) 1)"
    by (simp add: warp_proj_xy_def divisor_batch_def assms(1) pt)
  have g: "warp_grid feature proj ref_proj_inv depth 0 d y x = (Some gx, Some gy)"
    using normalize_masked [OF assms(2)] normalize_masked [OF assms(3)]
    by (simp add: warp_grid_def pxy gx_def gy_def)
  have big: "1 < gx" "1 < gy"
    using masked_coordinate(1) [OF assms(3)] masked_coordinate(1) [OF assms(2)]
    by (simp_all add: gx_def gy_def)
  have "real (img_w (select_channel feature 0 c))
          \<le> unnormalize gx (img_w (select_channel feature 0 c))"
    using masked_coordinate(2) [OF assms(3)] by (simp add: select_channel_def gx_def)
  then have "grid_sample_zeros (select_channel feature 0 c) (gx, gy) = 0"
    unfolding grid_sample_zeros_def fst_conv snd_conv by (rule bilinear_at_outside)
  then have zero: "sample_zeros (select_channel feature 0 c) (Some gx, Some gy) = Some 0"
    by (simp add: sample_zeros_def)
  obtain out where out: "DifferentiableWarping feature proj ref_proj_inv depth = Inr out"
    and at: "wrp_at out 0 c d y x = sample_zeros (select_channel feature 0 c)
                 (warp_grid feature proj ref_proj_inv depth 0 d y x)"
    using assms(1-6) by (simp add: DifferentiableWarping_def Let_def)
  from out at zero g big show ?thesis by simp
qed

theorem DifferentiableWarping_masked_zero_witness:
  "snd (snd (warp_xyz (matmul4 identity4 identity4) 0 0 (- 1))) = - 1 \<and>
   warp_grid
     \<lparr>t4_b = 1, t4_c = 1, t4_h = 2, t4_w = 2, t4_at = (\<lambda>b c y x. 7)\<rparr>
     (\<lambda>b. identity4) (\<lambda>b. identity4)
     \<lparr>t4_b = 1, t4_c = 1, t4_h = 2, t4_w = 2, t4_at = (\<lambda>b s y x. - 1)\<rparr> 0 0 0 0
     = (Some 3, Some 3) \<and>
   map_sum id (\<lambda>out. wrp_at out 0 0 0 0 0)
     (DifferentiableWarping
        \<lparr>t4_b = 1, t4_c = 1, t4_h = 2, t4_w = 2, t4_at = (\<lambda>b c y x. 7)\<rparr>
        (\<lambda>b. identity4) (\<lambda>b. identity4)
        \<lparr>t4_b = 1, t4_c = 1, t4_h = 2, t4_w = 2, t4_at = (\<lambda>b s y x. - 1)\<rparr>) = Inr (Some 0)"
  using DifferentiableWarping_masked_zero
    [of "\<lparr>t4_b = 1, t4_c = 1, t4_h = 2, t4_w = 2, t4_at = (\<lambda>b c y x. 7)\<rparr>"
        "\<lparr>t4_b = 1, t4_c = 1, t4_h = 2, t4_w = 2, t4_at = (\<lambda>b s y x. - 1)\<rparr>" 0 0 0
        "\<lambda>b. identity4" "\<lambda>b. identity4" 0]
  by (auto simp add: warp_xyz_def matmul4_def identity4_def warp_grid_def warp_proj_xy_def
      warp_point_def depth_view_def divisor_batch_def normalize_def fdiv_def
      warp_masked_def masked_fill_def Let_def)

text \<open>
  C4, as the claim states it, fails. With a batch of three the division of \<open>proj_xy\<close>
  pairs a 2-wide axis with a 3-wide one, so the function raises on every input, also for
  a point behind the camera. And on a feature map of one pixel the normalisation divides
  by zero: the coordinates of the masked point are not real numbers, and its warped
  feature is not the zero padding value.
\<close>

theorem DifferentiableWarping_batch_and_single_pixel:
  "DifferentiableWarping
     \<lparr>t4_b = 3, t4_c = 1, t4_h = 2, t4_w = 2, t4_at = (\<lambda>b c y x. 7)\<rparr>
     (\<lambda>b. identity4) (\<lambda>b. identity4)
     \<lparr>t4_b = 3, t4_c = 1, t4_h = 2, t4_w = 2, t4_at = (\<lambda>b s y x. - 1)\<rparr> = Inl ShapeMismatch \<and>
   warp_grid
     \<lparr>t4_b = 1, t4_c = 1, t4_h = 1, t4_w = 1, t4_at = (\<lambda>b c y x. 7)\<rparr>
     (\<lambda>b. identity4) (\<lambda>b. identity4)
     \<lparr>t4_b = 1, t4_c = 1, t4_h = 1, t4_w = 1, t4_at = (\<lambda>b s y x. - 1)\<rparr> 0 0 0 0
     = (None, None) \<and>
   map_sum id (\<lambda>out. wrp_at out 0 0 0 0 0)
     (DifferentiableWarping
        \<lparr>t4_b = 1, t4_c = 1, t4_h = 1, t4_w = 1, t4_at = (\<lambda>b c y x. 7)\<rparr>
        (\<lambda>b. identity4) (\<lambda>b. identity4)
        \<lparr>t4_b = 1, t4_c = 1, t4_h = 1, t4_w = 1, t4_at = (\<lambda>b s y x. - 1)\<rparr>) = Inr None"
  by (simp add: DifferentiableWarping_def warp_xyz_def matmul4_def identity4_def warp_grid_def
      warp_proj_xy_def warp_point_def depth_view_def divisor_batch_def normalize_def fdiv_def
      warp_masked_def masked_fill_def sample_zeros_def Let_def)

text \<open>
  C1 fails on the code. The three rows of the stack after the mask are all built from
  \<open>xyz.select(1, 0)\<close>, so a point that is not masked is divided by its own first
  coordinate. With a batch of one, identity projections, the pixel \<open>(x, y) = (2, 1)\<close> and
  depth 1 on a 3 \<open>\<times>\<close> 3 feature map, \<open>xyz\<close> is \<open>(2, 1, 1)\<close>; the code samples at \<open>(1, 1)\<close> and
  returns the feature of the pixel \<open>(1, 1)\<close>, where the claim has \<open>(x'/z', y'/z') = (2, 1)\<close>.
\<close>

theorem DifferentiableWarping_samples_first_row:
  "warp_xyz (matmul4 identity4 identity4) 2 1 1 = (2, 1, 1) \<and>
   warp_proj_xy
     \<lparr>t4_b = 1, t4_c = 1, t4_h = 3, t4_w = 3, t4_at = (\<lambda>b c y x. 10 * real y + real x)\<rparr>
     (\<lambda>b. identity4) (\<lambda>b. identity4)
     \<lparr>t4_b = 1, t4_c = 1, t4_h = 3, t4_w = 3, t4_at = (\<lambda>b s y x. 1)\<rparr> 0 0 1 2
     = (Some 1, Some 1) \<and>
   spec_proj_xy (matmul4 identity4 identity4) 2 1 1 = (Some 2, Some 1) \<and>
   map_sum id (\<lambda>out. wrp_at out 0 0 0 1 2)
     (DifferentiableWarping
        \<lparr>t4_b = 1, t4_c = 1, t4_h = 3, t4_w = 3, t4_at = (\<lambda>b c y x. 10 * real y + real x)\<rparr>
        (\<lambda>b. identity4) (\<lambda>b. identity4)
        \<lparr>t4_b = 1, t4_c = 1, t4_h = 3, t4_w = 3, t4_at = (\<lambda>b s y x. 1)\<rparr>) = Inr (Some 11)"
  by (simp add: warp_xyz_def matmul4_def identity4_def warp_grid_def warp_proj_xy_def
      warp_point_def depth_view_def divisor_batch_def normalize_def fdiv_def
      spec_proj_xy_def warp_masked_def masked_fill_def Let_def DifferentiableWarping_def
      sample_zeros_def grid_sample_zeros_def bilinear_at_def corner_def within_bounds_def
      unnormalize_def select_channel_def)

subsection \<open>Confidence\<close>

lemma padded_sum_le:
  assumes nonneg: "\<forall>i<vol_n score. 0 \<le> vol_at score i y x"
    and "finite A"
  shows "(\<Sum>j\<in>A. padded score j y x) \<le> (\<Sum>i<vol_n score. vol_at score i y x)"
proof -
  let ?B = "{Suc 0..<Suc (vol_n score)}"
  define g where "g j = vol_at score (j - 1) y x" for j
  have "(\<Sum>j\<in>A. padded score j y x) = (\<Sum>j\<in>A. if j \<in> ?B then g j else 0)"
    by (simp add: padded_def g_def cong: if_cong)
  also have "\<dots> = (\<Sum>j\<in>A \<inter> ?B. g j)"
    using assms(2) by (rule sum.inter_restrict [symmetric])
  also have "\<dots> \<le> (\<Sum>j\<in>?B. g j)"
    using nonneg by (intro sum_mono2) (auto simp: g_def)
  also have "\<dots> = (\<Sum>i\<in>{0..<vol_n score}. g (Suc i))"
    by (rule sum.shift_bounds_Suc_ivl)
  also have "\<dots> = (\<Sum>i\<in>{0..<vol_n score}. vol_at score i y x)"
    by (simp add: g_def)
  also have "\<dots> = (\<Sum>i<vol_n score. vol_at score i y x)"
    by (simp add: atLeast0LessThan)
  finally show ?thesis .
qed

lemma padded_nonneg:
  assumes "\<forall>i<vol_n score. 0 \<le> vol_at score i y x"
  shows "0 \<le> padded score j y x"
  using assms by (auto simp: padded_def)

lemma score_sum_unit:
  assumes nonneg: "\<forall>i<vol_n score. 0 \<le> vol_at score i y x"
    and total: "(\<Sum>i<vol_n score. vol_at score i y x) = 1"
  shows "0 \<le> score_sum score d y x \<and> score_sum score d y x \<le> 1"
proof -
  have eq: "score_sum score d y x = (\<Sum>j\<in>{d, d + 1, d + 2, d + 3}. padded score j y x)"
    by (simp add: score_sum_def)
  have "0 \<le> score_sum score d y x"
    unfolding eq using padded_nonneg [OF nonneg] by (intro sum_nonneg) simp
  moreover have "score_sum score d y x \<le> 1"
    unfolding eq using padded_sum_le [OF nonneg, of "{d, d + 1, d + 2, d + 3}"] total by simp
  ultimately show ?thesis by simp
qed

lemma src_index_bounds:
  assumes "0 < n" "dst < 2 * n" "src_index n dst = (i0, i1, l)"
  shows "i0 < n \<and> i1 < n \<and> 0 \<le> l \<and> l \<le> 1"
proof -
  define r :: real where "r = max 0 ((real dst + 1 / 2) / 2 - 1 / 2)"
  have r0: "0 \<le> r" by (simp add: r_def)
  have "real dst < 2 * real n" using assms(2) by (metis of_nat_less_iff of_nat_mult of_nat_numeral)
  then have rn: "r < real n" using assms(1) by (simp add: r_def)
  have f0: "0 \<le> \<lfloor>r\<rfloor>" using r0 by simp
  have fr: "real_of_int \<lfloor>r\<rfloor> \<le> r" "r < real_of_int \<lfloor>r\<rfloor> + 1" by linarith+
  have "src_index n dst =
      (nat \<lfloor>r\<rfloor>, nat \<lfloor>r\<rfloor> + (if nat \<lfloor>r\<rfloor> < n - 1 then 1 else 0), r - real (nat \<lfloor>r\<rfloor>))"
    unfolding src_index_def Let_def r_def ..
  with assms(3) have i0: "i0 = nat \<lfloor>r\<rfloor>"
    and i1: "i1 = i0 + (if i0 < n - 1 then 1 else 0)"
    and l: "l = r - real i0"
    by auto
  have ri0: "real i0 = real_of_int \<lfloor>r\<rfloor>" using f0 i0 by simp
  have "real i0 < real n" using ri0 fr(1) rn by linarith
  then have a: "i0 < n" by simp
  have b: "i1 < n" using a i1 by auto
  have c: "0 \<le> l" "l \<le> 1" using l ri0 fr by linarith+
  from a b c show ?thesis by simp
qed

lemma convex_unit:
  fixes a b l :: real
  assumes "0 \<le> l" "l \<le> 1" "0 \<le> a" "a \<le> 1" "0 \<le> b" "b \<le> 1"
  shows "0 \<le> (1 - l) * a + l * b \<and> (1 - l) * a + l * b \<le> 1"
proof -
  have "0 \<le> (1 - l) * a" "0 \<le> l * b" using assms by simp_all
  then have lo: "0 \<le> (1 - l) * a + l * b" by simp
  have "(1 - l) * a + l * b \<le> 1"
    using assms by (intro convex_bound_le) simp_all
  with lo show ?thesis by simp
qed

lemma interpolate_unit:
  assumes "0 < img_h f" "0 < img_w f"
    and unit: "\<And>y x. y < img_h f \<Longrightarrow> x < img_w f \<Longrightarrow> 0 \<le> img_at f y x \<and> img_at f y x \<le> 1"
    and "y < 2 * img_h f" "x < 2 * img_w f"
  shows "0 \<le> img_at (interpolate f) y x \<and> img_at (interpolate f) y x \<le> 1"
proof -
  obtain y0 y1 ly where sy: "src_index (img_h f) y = (y0, y1, ly)"
    by (cases "src_index (img_h f) y") auto
  obtain x0 x1 lx where sx: "src_index (img_w f) x = (x0, x1, lx)"
    by (cases "src_index (img_w f) x") auto
  from src_index_bounds [OF assms(1) assms(4) sy]
  have y: "y0 < img_h f" "y1 < img_h f" "0 \<le> ly" "ly \<le> 1" by simp_all
  from src_index_bounds [OF assms(2) assms(5) sx]
  have x: "x0 < img_w f" "x1 < img_w f" "0 \<le> lx" "lx \<le> 1" by simp_all
  define top where "top = (1 - lx) * img_at f y0 x0 + lx * img_at f y0 x1"
  define bot where "bot = (1 - lx) * img_at f y1 x0 + lx * img_at f y1 x1"
  have t: "0 \<le> top \<and> top \<le> 1"
    unfolding top_def using unit [OF y(1) x(1)] unit [OF y(1) x(2)] x(3,4)
    by (intro convex_unit) simp_all
  have b: "0 \<le> bot \<and> bot \<le> 1"
    unfolding bot_def using unit [OF y(2) x(1)] unit [OF y(2) x(2)] x(3,4)
    by (intro convex_unit) simp_all
  have "img_at (interpolate f) y x = (1 - ly) * top + ly * bot"
    by (simp add: interpolate_def sy sx top_def bot_def)
  moreover have "0 \<le> (1 - ly) * top + ly * bot \<and> (1 - ly) * top + ly * bot \<le> 1"
    using t b y(3,4) by (intro convex_unit) simp_all
  ultimately show ?thesis by simp
qed

lemma depth_index_range:
  assumes "0 < n"
  shows "0 \<le> depth_index n score y x \<and> depth_index n score y x < int n"
  using assms by (simp add: depth_index_def)

text \<open>
  C8. For a score volume that is a probability distribution over the depth hypotheses at
  every pixel (entries non-negative, summing to 1 along the depth axis), every pixel of
  the confidence map that \<open>CalcConfidence\<close> returns lies in \<open>[0, 1]\<close>; the map has twice the
  height and width of the score volume. \<open>CalcConfidence\<close> does return a map when the
  volume has pixels and its depth axis has the \<open>num_depth\<close> entries of the module.
\<close>

theorem CalcConfidence_unit:
  assumes valid: "\<forall>y<vol_h score. \<forall>x<vol_w score.
      (\<forall>d<vol_n score. 0 \<le> vol_at score d y x) \<and> (\<Sum>d<vol_n score. vol_at score d y x) = 1"
  shows "(\<forall>conf. CalcConfidence nd score = Inr conf \<longrightarrow>
            img_h conf = 2 * vol_h score \<and> img_w conf = 2 * vol_w score \<and>
            (\<forall>y<img_h conf. \<forall>x<img_w conf. 0 \<le> img_at conf y x \<and> img_at conf y x \<le> 1)) \<and>
         (0 < vol_h score \<and> 0 < vol_w score \<and> 0 < vol_n score \<and> nd = int (vol_n score)
            \<longrightarrow> (\<exists>conf. CalcConfidence nd score = Inr conf))"
proof -
  define low where "low = \<lparr>img_h = vol_h score, img_w = vol_w score,
      img_at = (\<lambda>y x. score_sum score (nat (depth_index (nat nd) score y x)) y x)\<rparr>"
  have low_unit: "0 \<le> img_at low y x \<and> img_at low y x \<le> 1"
    if "y < img_h low" "x < img_w low" for y x
  proof -
    from that have "y < vol_h score" "x < vol_w score" by (simp_all add: low_def)
    with valid have "\<forall>d<vol_n score. 0 \<le> vol_at score d y x"
      and "(\<Sum>d<vol_n score. vol_at score d y x) = 1" by simp_all
    from score_sum_unit [OF this] show ?thesis by (simp add: low_def)
  qed
  have first: "img_h conf = 2 * vol_h score \<and> img_w conf = 2 * vol_w score \<and>
            (\<forall>y<img_h conf. \<forall>x<img_w conf. 0 \<le> img_at conf y x \<and> img_at conf y x \<le> 1)"
    if ret: "CalcConfidence nd score = Inr conf" for conf
  proof -
    from ret have hw: "0 < vol_h score" "0 < vol_w score"
      by (auto simp: CalcConfidence_def Let_def split: if_splits)
    from ret have conf: "conf = interpolate low"
      by (auto simp: CalcConfidence_def Let_def low_def split: if_splits)
    have sizes: "img_h conf = 2 * vol_h score" "img_w conf = 2 * vol_w score"
      by (simp_all add: conf interpolate_def low_def)
    have "0 \<le> img_at conf y x \<and> img_at conf y x \<le> 1"
      if "y < img_h conf" "x < img_w conf" for y x
      unfolding conf
    proof (rule interpolate_unit)
      show "0 < img_h low" "0 < img_w low" using hw by (simp_all add: low_def)
      show "y < 2 * img_h low" "x < 2 * img_w low"
        using that sizes by (simp_all add: low_def)
    qed (rule low_unit)
    with sizes show ?thesis by simp
  qed
  have second: "\<exists>conf. CalcConfidence nd score = Inr conf"
    if ok: "0 < vol_h score \<and> 0 < vol_w score \<and> 0 < vol_n score \<and> nd = int (vol_n score)"
  proof -
    from ok have n: "nat nd = vol_n score" "0 < nat nd" by simp_all
    have "list_all (\<lambda>y. list_all (\<lambda>x.
                   0 \<le> depth_index (nat nd) score y x
                   \<and> depth_index (nat nd) score y x < int (vol_n score))
                 [0..<vol_w score]) [0..<vol_h score]"
      using depth_index_range [OF n(2), of score] n(1) by (simp add: list_all_iff)
    with ok n show ?thesis
      by (simp add: CalcConfidence_def Let_def bcast_def)
  qed
  from first second show ?thesis by blast
qed

theorem CalcConfidence_unit_witness:
  "map_sum id (\<lambda>conf. (img_h conf, img_w conf, img_at conf 0 0, img_at conf 1 1))
     (CalcConfidence 5
        \<lparr>vol_n = 5, vol_h = 1, vol_w = 1,
         vol_at = (\<lambda>d y x. if d = 0 \<or> d = 4 then 1 / 2 else 0)\<rparr>) = Inr (2, 2, 1 / 2, 1 / 2)"
proof -
  let ?s = "\<lparr>vol_n = 5, vol_h = 1, vol_w = 1,
         vol_at = (\<lambda>d y x. if d = 0 \<or> d = 4 then 1 / 2 else (0 :: real))\<rparr>"
  have five: "{..<5 :: nat} = {0, 1, 2, 3, 4}" by auto
  have valid: "\<forall>y<vol_h ?s. \<forall>x<vol_w ?s.
      (\<forall>d<vol_n ?s. 0 \<le> vol_at ?s d y x) \<and> (\<Sum>d<vol_n ?s. vol_at ?s d y x) = 1"
    by (simp add: five)
  have idx: "depth_index 5 ?s 0 0 = 2"
    by (simp add: depth_index_def bsize_def bidx_def to_long_def five)
  from CalcConfidence_unit [OF valid, of 5] idx show ?thesis
    by (simp add: CalcConfidence_def Let_def bcast_def interpolate_def src_index_def
        score_sum_def padded_def)
qed

subsection \<open>View weights across the stages\<close>

lemma view_weight_loop_given:
  "view_weight_loop ev True n = Inr n"
  by (induction n) simp_all

lemma view_weight_loop_net:
  "pixelwise_net ev = Some g \<Longrightarrow> view_weight_loop ev False n = Inr n"
  by (induction n) simp_all

lemma view_weight_loop_empty:
  "pixelwise_net ev = None \<Longrightarrow> 0 < n \<Longrightarrow> view_weight_loop ev False n = Inl EmptyModuleHolder"
  by (cases n) simp_all

lemma Evaluation_forward_empty:
  "pixelwise_net ev = None \<Longrightarrow> 0 < n \<Longrightarrow>
     Evaluation_forward ev n Defined Undefined = Inl EmptyModuleHolder"
  by (simp add: Evaluation_forward_def view_weight_loop_empty)

lemma Evaluation_forward_safe:
  assumes "pixelwise_net ev \<noteq> None \<or> vw = Defined"
  shows "Evaluation_forward ev n d vw \<noteq> Inl EmptyModuleHolder"
proof (cases "vw = Defined")
  case True
  then show ?thesis
    by (simp add: Evaluation_forward_def view_weight_loop_given)
next
  case False
  with assms obtain g where "pixelwise_net ev = Some g" by auto
  with False show ?thesis
    by (simp add: Evaluation_forward_def view_weight_loop_net)
qed

lemma Evaluation_forward_defined:
  assumes "Evaluation_forward ev n d vw = Inr (d', s', w')"
  shows "d' = Defined \<and> s' = Defined \<and> w' = Defined"
  using assms
  by (auto simp: Evaluation_forward_def Let_def split: if_splits sum.splits)

lemma Evaluation_forward_needs_net:
  assumes "Evaluation_forward ev n d Undefined = Inr r"
  shows "pixelwise_net ev \<noteq> None"
proof
  assume none: "pixelwise_net ev = None"
  show False
  proof (cases n)
    case 0
    with assms show False
      by (simp add: Evaluation_forward_def split: if_splits)
  next
    case (Suc k)
    with assms none show False
      by (simp add: Evaluation_forward_def split: if_splits)
  qed
qed

lemma iter_loop_safe:
  assumes "pixelwise_net (evaluation m) \<noteq> None \<or> vw = Defined"
  shows "iter_loop m n g iter k (d, s, vw) \<noteq> Inl EmptyModuleHolder"
  using assms
proof (induction k arbitrary: iter d s vw)
  case 0
  then show ?case by simp
next
  case (Suc k)
  show ?case
  proof (cases "propagation_neighbors m > 0 \<and> \<not> (stage m = 1 \<and> iter = iterations m - 1)
                \<and> g = Undefined")
    case True
    then show ?thesis by simp
  next
    case False
    then have step: "iter_loop m n g iter (Suc k) (d, s, vw) =
        (case Evaluation_forward (evaluation m) n Defined vw of
           Inl e \<Rightarrow> Inl e
         | Inr st' \<Rightarrow> iter_loop m n g (iter + 1) k st')"
      by auto
    show ?thesis
    proof (cases "Evaluation_forward (evaluation m) n Defined vw")
      case (Inl e)
      with Evaluation_forward_safe [OF Suc.prems, of n Defined] step show ?thesis by auto
    next
      case (Inr st')
      obtain d' s' w' where st': "st' = (d', s', w')" by (cases st') auto
      with Inr Evaluation_forward_defined have "w' = Defined" by blast
      with Suc.IH [of w' "iter + 1" d' s'] step Inr st' show ?thesis by simp
    qed
  qed
qed

lemma iter_loop_defined:
  assumes "iter_loop m n g iter k (d, s, vw) = Inr (d', s', w')" "0 < k"
  shows "d' = Defined \<and> w' = Defined"
  using assms
proof (induction k arbitrary: iter d s vw)
  case 0
  then show ?case by simp
next
  case (Suc k)
  from Suc.prems(1) obtain st' where ev: "Evaluation_forward (evaluation m) n Defined vw = Inr st'"
    and rest: "iter_loop m n g (iter + 1) k st' = Inr (d', s', w')"
    by (auto simp: Let_def split: if_splits sum.splits)
  obtain d1 s1 w1 where st': "st' = (d1, s1, w1)" by (cases st') auto
  with ev Evaluation_forward_defined have def: "d1 = Defined" "w1 = Defined" by blast+
  show ?case
  proof (cases k)
    case 0
    with rest st' def show ?thesis by simp
  next
    case (Suc j)
    with Suc.IH [of "iter + 1" d1 s1 w1] rest st' show ?thesis by simp
  qed
qed

lemma PatchMatchModule_forward_safe:
  assumes "pixelwise_net (evaluation m) \<noteq> None \<or> vw = Defined"
  shows "PatchMatchModule_forward m n d vw \<noteq> Inl EmptyModuleHolder"
  using iter_loop_safe [OF assms]
  by (auto simp: PatchMatchModule_forward_def Let_def split: sum.splits if_splits)

lemma PatchMatchModule_forward_weights:
  assumes "PatchMatchModule_forward m n d vw = Inr (d', s', w')"
    and "d = Undefined \<or> vw = Defined"
  shows "w' = Defined"
proof -
  let ?g = "if propagation_conv m then Defined else Undefined"
  from assms(1) obtain d1 where
    it: "iter_loop m n ?g 0 (nat (iterations m)) (d, Undefined, vw) = Inr (d1, s', w')"
    and d1: "d1 \<noteq> Undefined"
    by (auto simp: PatchMatchModule_forward_def Let_def split: sum.splits if_splits)
  show ?thesis
  proof (cases "nat (iterations m)")
    case 0
    with it have "d1 = d" "w' = vw" by simp_all
    with d1 assms(2) show ?thesis by auto
  next
    case (Suc k)
    then have "0 < nat (iterations m)" by simp
    from iter_loop_defined [OF it this] show ?thesis by simp
  qed
qed

lemma stage_loop_safe:
  "stage_loop pm n k (d, s, Defined) \<noteq> Inl EmptyModuleHolder"
proof (induction k arbitrary: d s)
  case 0
  then show ?case by simp
next
  case (Suc k)
  show ?case
  proof (cases "at_vec pm k")
    case (Inl e)
    then have "e = OutOfBounds" by (auto simp: at_vec_def split: if_splits)
    with Inl show ?thesis by simp
  next
    case (Inr m)
    show ?thesis
    proof (cases "PatchMatchModule_forward m n d Defined")
      case (Inl e)
      with PatchMatchModule_forward_safe [of m Defined n d] have "e \<noteq> EmptyModuleHolder"
        by auto
      with Inl \<open>at_vec pm k = Inr m\<close> show ?thesis by simp
    next
      case (Inr r)
      obtain d' s' w' where r: "r = (d', s', w')" by (cases r) auto
      with Inr PatchMatchModule_forward_weights [of m n d Defined d' s' w']
      have w': "w' = Defined" by simp
      from Suc.IH [of Defined s'] Suc.IH [of d' s'] Inr r w' \<open>at_vec pm k = Inr m\<close>
      show ?thesis by (cases d') simp_all
    qed
  qed
qed

lemma EvaluationImpl_net:
  "pixelwise_net (EvaluationImpl g s) \<noteq> None \<longleftrightarrow> s = 3"
  by (simp add: EvaluationImpl_def)

lemma PatchMatchModuleImpl_evaluation:
  assumes "PatchMatchModuleImpl pr it ns sc nf gc pn en stg = Inr m"
  shows "evaluation m = EvaluationImpl gc stg \<and> stage m = stg"
  using assms
  by (auto simp: PatchMatchModuleImpl_def split: sum.splits prod.splits)

lemma make_stage_evaluation:
  assumes "make_stage isc pr its ns pn en i = Inr m"
  shows "\<exists>gc. evaluation m = EvaluationImpl gc (int i + 1) \<and> stage m = int i + 1"
  using assms
  by (auto simp: make_stage_def split: sum.splits dest: PatchMatchModuleImpl_evaluation)

lemma PatchMatchNetModuleImpl_stages:
  assumes "PatchMatchNetModuleImpl isc pr its ns pn en = Inr net"
  shows "\<exists>m1 m2 m3. patch_match net = [m1, m2, m3] \<and>
     pixelwise_net (evaluation m3) \<noteq> None \<and>
     pixelwise_net (evaluation m1) = None \<and> pixelwise_net (evaluation m2) = None"
proof -
  from assms obtain m1 m2 m3 where
    m1: "make_stage isc pr its ns pn en 0 = Inr m1" and
    m2: "make_stage isc pr its ns pn en 1 = Inr m2" and
    m3: "make_stage isc pr its ns pn en 2 = Inr m3" and
    pm: "patch_match net = [m1, m2, m3]"
    by (auto simp: PatchMatchNetModuleImpl_def split: sum.splits)
  from make_stage_evaluation [OF m1] make_stage_evaluation [OF m2] make_stage_evaluation [OF m3]
  have "pixelwise_net (evaluation m3) \<noteq> None"
    "pixelwise_net (evaluation m1) = None" "pixelwise_net (evaluation m2) = None"
    by (auto simp: EvaluationImpl_def)
  with pm show ?thesis by blast
qed

lemma PatchMatchNetModule_forward_safe:
  assumes "PatchMatchNetModuleImpl isc pr its ns pn en = Inr net"
  shows "PatchMatchNetModule_forward net n_views \<noteq> Inl EmptyModuleHolder"
proof -
  from PatchMatchNetModuleImpl_stages [OF assms] obtain m1 m2 m3 where
    pm: "patch_match net = [m1, m2, m3]" and net3: "pixelwise_net (evaluation m3) \<noteq> None"
    by blast
  let ?n = "n_views - 1"
  have at: "at_vec [m1, m2, m3] (Suc (Suc 0)) = Inr m3" by (simp add: at_vec_def)
  have "stage_loop [m1, m2, m3] ?n (Suc (Suc (Suc 0))) (Undefined, Undefined, Undefined)
                \<noteq> Inl EmptyModuleHolder"
  proof (cases "PatchMatchModule_forward m3 ?n Undefined Undefined")
    case (Inl e)
    with PatchMatchModule_forward_safe [of m3 Undefined ?n Undefined] net3
    have "e \<noteq> EmptyModuleHolder" by auto
    with Inl at show ?thesis by simp
  next
    case (Inr r)
    obtain d' s' w' where r: "r = (d', s', w')" by (cases r) auto
    with Inr PatchMatchModule_forward_weights [of m3 ?n Undefined Undefined d' s' w']
    have w': "w' = Defined" by simp
    from stage_loop_safe [of "[m1, m2, m3]" ?n "Suc (Suc 0)" Defined s'] Inr r w' at
    show ?thesis by (cases d') simp_all
  qed
  then have loop: "stage_loop [m1, m2, m3] ?n 3 (Undefined, Undefined, Undefined)
                \<noteq> Inl EmptyModuleHolder"
    unfolding numeral_3_eq_3 .
  from loop show ?thesis
    by (auto simp: PatchMatchNetModule_forward_def pm kNumStages_def split: sum.splits if_splits)
qed

text \<open>
  C10. \<open>pixelwise_net\<close> is registered exactly when the stage is 3. Called with undefined
  \<open>view_weights\<close> and at least one source view, \<open>EvaluationImpl::forward\<close> of any other
  stage dereferences the empty module holder; it returns only at stage 3. The pipeline
  keeps to this: for every network the constructor builds and every number of views,
  \<open>PatchMatchNetModuleImpl::forward\<close> never reaches the empty holder, because the stage 3
  module runs first and hands defined view weights to the stages 2 and 1.
\<close>

theorem pixelwise_net_stage_3_only:
  "(pixelwise_net (EvaluationImpl g s) \<noteq> None \<longleftrightarrow> s = 3) \<and>
   (s \<noteq> 3 \<and> 0 < n_src \<longrightarrow>
      Evaluation_forward (EvaluationImpl g s) n_src Defined Undefined = Inl EmptyModuleHolder) \<and>
   (\<forall>r. Evaluation_forward (EvaluationImpl g s) n_src depth Undefined = Inr r \<longrightarrow> s = 3) \<and>
   (\<forall>net. PatchMatchNetModuleImpl isc pr its ns pn en = Inr net \<longrightarrow>
      PatchMatchNetModule_forward net n_views \<noteq> Inl EmptyModuleHolder)"
proof -
  have a: "pixelwise_net (EvaluationImpl g s) \<noteq> None \<longleftrightarrow> s = 3"
    by (rule EvaluationImpl_net)
  have b: "Evaluation_forward (EvaluationImpl g s) n_src Defined Undefined = Inl EmptyModuleHolder"
    if "s \<noteq> 3 \<and> 0 < n_src"
    using that a by (intro Evaluation_forward_empty) simp_all
  have c: "s = 3" if "Evaluation_forward (EvaluationImpl g s) n_src depth Undefined = Inr r" for r
    using Evaluation_forward_needs_net [OF that] a by simp
  have d: "PatchMatchNetModule_forward net n_views \<noteq> Inl EmptyModuleHolder"
    if "PatchMatchNetModuleImpl isc pr its ns pn en = Inr net" for net
    using that by (rule PatchMatchNetModule_forward_safe)
  from a b c d show ?thesis by blast
qed

theorem pixelwise_net_stage_3_only_witness:
  "Evaluation_forward (EvaluationImpl 8 2) 2 Defined Undefined = Inl EmptyModuleHolder \<and>
   Evaluation_forward (EvaluationImpl 8 3) 2 Defined Undefined = Inr (Defined, Defined, Defined) \<and>
   map_sum id (\<lambda>net. PatchMatchNetModule_forward net 3)
     (PatchMatchNetModuleImpl [5 / 1000, 125 / 10000, 25 / 1000] [6, 4, 2] [1, 2, 2] [8, 8, 16]
        [0, 8, 16] [9, 9, 9]) = Inr (Inr (Defined, Defined))"
proof -
  have ctor: "PatchMatchNetModuleImpl [5 / 1000, 125 / 10000, 25 / 1000] [6, 4, 2] [1, 2, 2]
        [8, 8, 16] [0, 8, 16] [9, 9, 9]
      = Inr \<lparr>num_depth = 8, patch_match =
          [\<lparr>propagation_neighbors = 0, evaluation_neighbors = 9, iterations = 1, stage = 1,
            prop_offset_orig = [], eval_offset_orig = square9 5, propagation_conv = False,
            evaluation = EvaluationImpl 4 1\<rparr>,
           \<lparr>propagation_neighbors = 8, evaluation_neighbors = 9, iterations = 2, stage = 2,
            prop_offset_orig = ring8 4, eval_offset_orig = square9 3, propagation_conv = True,
            evaluation = EvaluationImpl 8 2\<rparr>,
           \<lparr>propagation_neighbors = 16, evaluation_neighbors = 9, iterations = 2, stage = 3,
            prop_offset_orig = ring8 2 @ map (\<lambda>(a, b). (2 * a, 2 * b)) (ring8 2),
            eval_offset_orig = square9 1, propagation_conv = True,
            evaluation = EvaluationImpl 8 3\<rparr>]\<rparr>"
    by (simp add: PatchMatchNetModuleImpl_def make_stage_def at_vec_def num_features_tab_def
        group_correlations_tab_def PatchMatchModuleImpl_def CalcOffsets_def
        calc_prop_offsets_def calc_eval_offsets_def ring8_def eval_nat_numeral)
  have run: "map_sum id (\<lambda>net. PatchMatchNetModule_forward net 3)
     (PatchMatchNetModuleImpl [5 / 1000, 125 / 10000, 25 / 1000] [6, 4, 2] [1, 2, 2] [8, 8, 16]
        [0, 8, 16] [9, 9, 9]) = Inr (Inr (Defined, Defined))"
    unfolding ctor
    by (simp add: PatchMatchNetModule_forward_def kNumStages_def PatchMatchModule_forward_def
        Evaluation_forward_def EvaluationImpl_def at_vec_def eval_nat_numeral Let_def)
  from pixelwise_net_stage_3_only [of 8 2 2 Defined, THEN conjunct2, THEN conjunct1]
  have "Evaluation_forward (EvaluationImpl 8 2) 2 Defined Undefined = Inl EmptyModuleHolder"
    by simp
  moreover have "Evaluation_forward (EvaluationImpl 8 3) 2 Defined Undefined
      = Inr (Defined, Defined, Defined)"
    by (simp add: Evaluation_forward_def EvaluationImpl_def eval_nat_numeral)
  ultimately show ?thesis using run by simp
qed

subsection \<open>Loading\<close>

lemma ReadValues_step:
  "ReadValues copy archive ((key, param) # rest) names is_buffer =
     (case spec_resolve archive names key of
        Some v \<Rightarrow>
          (case copy param v of
             Inl e \<Rightarrow> Inl e
           | Inr param' \<Rightarrow>
               (case ReadValues copy archive rest names is_buffer of
                  Inl e \<Rightarrow> Inl e
                | Inr (rest', out) \<Rightarrow> Inr ((key, param') # rest', out)))
      | None \<Rightarrow>
          (case ReadValues copy archive rest names is_buffer of
             Inl e \<Rightarrow> Inl e
           | Inr (rest', out) \<Rightarrow> Inr ((key, param) # rest', warning is_buffer key # out)))"
  by (simp add: spec_resolve_def try_read_def split: option.splits)

lemma entry_loaded_mono:
  "entry_loaded copy archive names is_buffer out e e' \<Longrightarrow> set out \<subseteq> set out' \<Longrightarrow>
     entry_loaded copy archive names is_buffer out' e e'"
  by (auto simp: entry_loaded_def split: option.splits)

lemma ReadValues_loaded:
  "ReadValues copy archive dict names is_buffer = Inr (dict', out) \<Longrightarrow>
     list_all2 (entry_loaded copy archive names is_buffer out) dict dict'"
proof (induction dict arbitrary: dict' out)
  case Nil
  then show ?case by simp
next
  case (Cons e rest)
  obtain key param where e: "e = (key, param)" by (cases e) auto
  show ?case
  proof (cases "spec_resolve archive names key")
    case None
    with Cons.prems e obtain rest' out0 where
      rec: "ReadValues copy archive rest names is_buffer = Inr (rest', out0)"
      and res: "dict' = (key, param) # rest'" "out = warning is_buffer key # out0"
      by (auto simp: ReadValues_step simp del: ReadValues.simps split: sum.splits)
    from Cons.IH [OF rec]
    have "list_all2 (entry_loaded copy archive names is_buffer out0) rest rest'" .
    then have "list_all2 (entry_loaded copy archive names is_buffer out) rest rest'"
      by (rule list_all2_mono) (auto intro: entry_loaded_mono simp: res)
    moreover have "entry_loaded copy archive names is_buffer out (key, param) (key, param)"
      using None by (simp add: entry_loaded_def res)
    ultimately show ?thesis by (simp add: e res)
  next
    case (Some v)
    with Cons.prems e obtain param' rest' where
      cp: "copy param v = Inr param'"
      and rec: "ReadValues copy archive rest names is_buffer = Inr (rest', out)"
      and res: "dict' = (key, param') # rest'"
      by (auto simp: ReadValues_step simp del: ReadValues.simps split: sum.splits)
    from Cons.IH [OF rec]
    have "list_all2 (entry_loaded copy archive names is_buffer out) rest rest'" .
    moreover have "entry_loaded copy archive names is_buffer out (key, param) (key, param')"
      using Some cp by (simp add: entry_loaded_def)
    ultimately show ?thesis by (simp add: e res)
  qed
qed

lemma ReadValues_fails_in_copy:
  "ReadValues copy archive dict names is_buffer = Inl err \<Longrightarrow>
     \<exists>key param v. (key, param) \<in> set dict \<and> spec_resolve archive names key = Some v \<and>
        copy param v = Inl err"
proof (induction dict)
  case Nil
  then show ?case by simp
next
  case (Cons e rest)
  obtain key param where e: "e = (key, param)" by (cases e) auto
  show ?case
  proof (cases "spec_resolve archive names key")
    case None
    with Cons.prems e have "ReadValues copy archive rest names is_buffer = Inl err"
      by (auto simp: ReadValues_step simp del: ReadValues.simps split: sum.splits)
    from Cons.IH [OF this] show ?thesis by auto
  next
    case (Some v)
    show ?thesis
    proof (cases "copy param v")
      case (Inl e')
      with Cons.prems e Some have "e' = err"
        by (simp add: ReadValues_step del: ReadValues.simps)
      with Inl Some e show ?thesis by auto
    next
      case (Inr p')
      with Cons.prems e Some have "ReadValues copy archive rest names is_buffer = Inl err"
        by (auto simp: ReadValues_step simp del: ReadValues.simps split: sum.splits)
      from Cons.IH [OF this] show ?thesis by auto
    qed
  qed
qed

text \<open>
  C7. When \<open>PatchMatchNetModuleImpl::load\<close> returns, every parameter and every buffer keeps
  its name and was resolved as the specification describes: through the alternate name of
  the table first (when the table has the expected name), then through the expected name;
  the value read was copied into it, and where neither name is in the archive it keeps its
  value and a warning was printed. A missing name never makes loading fail: when \<open>load\<close>
  fails, a value that was found could not be copied.
\<close>

theorem load_resolves_names:
  "(\<forall>m' out. load copy archive m = Inr (m', out) \<longrightarrow>
      list_all2 (entry_loaded copy archive (param_dict m) False out)
        (named_parameters m) (named_parameters m') \<and>
      list_all2 (entry_loaded copy archive (param_dict m) True out)
        (named_buffers m) (named_buffers m')) \<and>
   (\<forall>err. load copy archive m = Inl err \<longrightarrow>
      (\<exists>key param v. (key, param) \<in> set (named_parameters m @ named_buffers m) \<and>
         spec_resolve archive (param_dict m) key = Some v \<and> copy param v = Inl err))"
proof -
  have ok: "list_all2 (entry_loaded copy archive (param_dict m) False out)
        (named_parameters m) (named_parameters m') \<and>
      list_all2 (entry_loaded copy archive (param_dict m) True out)
        (named_buffers m) (named_buffers m')"
    if "load copy archive m = Inr (m', out)" for m' out
  proof -
    from that obtain ps out1 bs out2 where
      p: "ReadValues copy archive (named_parameters m) (param_dict m) False = Inr (ps, out1)"
      and b: "ReadValues copy archive (named_buffers m) (param_dict m) True = Inr (bs, out2)"
      and m': "m' = m\<lparr>named_parameters := ps, named_buffers := bs\<rparr>" and out: "out = out1 @ out2"
      by (auto simp: load_def split: sum.splits)
    have "list_all2 (entry_loaded copy archive (param_dict m) False out) (named_parameters m) ps"
      using ReadValues_loaded [OF p]
      by (rule list_all2_mono) (auto intro: entry_loaded_mono simp: out)
    moreover
    have "list_all2 (entry_loaded copy archive (param_dict m) True out) (named_buffers m) bs"
      using ReadValues_loaded [OF b]
      by (rule list_all2_mono) (auto intro: entry_loaded_mono simp: out)
    ultimately show ?thesis by (simp add: m')
  qed
  have bad: "\<exists>key param v. (key, param) \<in> set (named_parameters m @ named_buffers m) \<and>
         spec_resolve archive (param_dict m) key = Some v \<and> copy param v = Inl err"
    if "load copy archive m = Inl err" for err
  proof -
    from that have "ReadValues copy archive (named_parameters m) (param_dict m) False = Inl err
        \<or> ReadValues copy archive (named_buffers m) (param_dict m) True = Inl err"
      by (auto simp: load_def split: sum.splits)
    then show ?thesis
      using ReadValues_fails_in_copy [of copy archive _ "param_dict m" _ err] by fastforce
  qed
  from ok bad show ?thesis by blast
qed

theorem load_resolves_names_witness:
  "load (\<lambda>dst src. Inr src) [''A'' \<mapsto> 1 :: int, ''a'' \<mapsto> 2, ''b'' \<mapsto> 3]
     \<lparr>param_dict = [''a'' \<mapsto> ''A'', ''c'' \<mapsto> ''C''],
      named_parameters = [(''a'', 0), (''b'', 0), (''c'', 7)],
      named_buffers = [(''d'', 9)]\<rparr>
   = Inr (\<lparr>param_dict = [''a'' \<mapsto> ''A'', ''c'' \<mapsto> ''C''],
           named_parameters = [(''a'', 1), (''b'', 3), (''c'', 7)],
           named_buffers = [(''d'', 9)]\<rparr>,
          [''WARN: archive does not contain parameter: c'',
           ''WARN: archive does not contain buffer: d''])"
  using load_resolves_names [of "\<lambda>dst src. Inr src" "[''A'' \<mapsto> 1 :: int, ''a'' \<mapsto> 2, ''b'' \<mapsto> 3]"
     "\<lparr>param_dict = [''a'' \<mapsto> ''A'', ''c'' \<mapsto> ''C''],
      named_parameters = [(''a'', 0), (''b'', 0), (''c'', 7)],
      named_buffers = [(''d'', 9)]\<rparr>"]
  by (simp add: load_def try_read_def warning_def)

end
